theory Spec2Isabelle
  imports Main
begin

section \<open>JavaScript strings\<close>

text \<open>
  A JavaScript string is a sequence of UTF-16 code units, and \<open>length\<close>, \<open>substring\<close>,
  \<open>includes\<close>, \<open>split\<close> and \<open>trim\<close> all count and compare code units. A string is
  therefore a list of code-unit values; \<open>asc\<close> turns an ASCII literal into such a list.
  The sparkles sign U+2728 is one unit, the glowing star U+1F31F and the palette U+1F3A8 are
  surrogate pairs of two units each.
\<close>

type_synonym jsstring = "nat list"

definition asc :: "string \<Rightarrow> jsstring" where
  "asc s = map of_char s"

text \<open>White space as \<open>String.prototype.trim\<close> and the regular expression class \<open>\s\<close> see it.\<close>

definition isWhiteSpace :: "nat \<Rightarrow> bool" where
  "isWhiteSpace c \<longleftrightarrow>
     c \<in> set [9, 10, 11, 12, 13, 32, 160, 5760, 8232, 8233, 8239, 8287, 12288, 65279]
     \<or> (8192 \<le> c \<and> c \<le> 8202)"

definition trim :: "jsstring \<Rightarrow> jsstring" where
  "trim s = rev (dropWhile isWhiteSpace (rev (dropWhile isWhiteSpace s)))"

definition startsWith :: "jsstring \<Rightarrow> jsstring \<Rightarrow> bool" where
  "startsWith s p \<longleftrightarrow> take (length p) s = p"

definition endsWith :: "jsstring \<Rightarrow> jsstring \<Rightarrow> bool" where
  "endsWith s p \<longleftrightarrow> length p \<le> length s \<and> drop (length s - length p) s = p"

fun includes_js :: "jsstring \<Rightarrow> jsstring \<Rightarrow> bool" where
  "includes_js [] w = (w = [])"
| "includes_js (c # cs) w = (startsWith (c # cs) w \<or> includes_js cs w)"

text \<open>\<open>s.substring(0, n)\<close> for \<open>n \<ge> 0\<close>: the first \<open>n\<close> units, the whole string when it is shorter.\<close>

definition substring0 :: "jsstring \<Rightarrow> nat \<Rightarrow> jsstring" where
  "substring0 s n = take n s"

text \<open>
  \<open>toLowerCase\<close>. The mapping is exact on ASCII, and on the two units outside ASCII whose
  lower case contains an ASCII letter (U+0130 and the Kelvin sign U+212A). Every other unit is
  kept as it is; its true lower case is again outside ASCII, so a search of the result for one
  of the program's keywords, which are all ASCII, gives the same answer.
\<close>

definition lowerUnit :: "nat \<Rightarrow> jsstring" where
  "lowerUnit c =
     (if 65 \<le> c \<and> c \<le> 90 then [c + 32]
      else if c = 304 then [105, 775]
      else if c = 8490 then [107]
      else [c])"

definition toLowerCase :: "jsstring \<Rightarrow> jsstring" where
  "toLowerCase s = concat (map lowerUnit s)"

text \<open>\<open>s.split(sep)\<close> for a one-unit separator: never the empty array, \<open>''.split(',')\<close> is \<open>['']\<close>.\<close>

fun split :: "nat \<Rightarrow> jsstring \<Rightarrow> jsstring list" where
  "split sep [] = [[]]"
| "split sep (c # cs) =
     (if c = sep then [] # split sep cs
      else (case split sep cs of [] \<Rightarrow> [[c]] | w # ws \<Rightarrow> (c # w) # ws))"

fun join :: "jsstring \<Rightarrow> jsstring list \<Rightarrow> jsstring" where
  "join sep [] = []"
| "join sep [x] = x"
| "join sep (x # y # ys) = x @ sep @ join sep (y # ys)"

text \<open>A text that neither starts nor ends with white space, and is not empty.\<close>

definition solid :: "jsstring \<Rightarrow> bool" where
  "solid w \<longleftrightarrow> w \<noteq> [] \<and> \<not> isWhiteSpace (hd w) \<and> \<not> isWhiteSpace (last w)"

definition comma :: nat where "comma = 44"
definition lbrace :: nat where "lbrace = 123"
definition rbrace :: nat where "rbrace = 125"
definition hash :: nat where "hash = 35"

definition ellipsis :: jsstring where
  "ellipsis = asc ''...''"

section \<open>JSON values\<close>

text \<open>
  What \<open>JSON.parse\<close> returns. A number is kept as the text that \<open>String(n)\<close> gives it, which
  is all the program ever asks of a number besides its type; an object is the list of its own
  properties, each key once. \<open>JSON.parse\<close> itself belongs to the platform and is a parameter
  of every function that calls it: \<open>Inl m\<close> is the \<open>SyntaxError\<close> it throws, with message \<open>m\<close>.
\<close>

datatype json =
    JNull
  | JBool bool
  | JNumber jsstring
  | JString jsstring
  | JArray "json list"
  | JObject "(jsstring \<times> json) list"

type_synonym parser = "jsstring \<Rightarrow> jsstring + json"

text \<open>Truthiness, as \<open>||\<close> and \<open>!\<close> test it.\<close>

fun truthy :: "json \<Rightarrow> bool" where
  "truthy JNull = False"
| "truthy (JBool b) = b"
| "truthy (JNumber n) = (n \<noteq> asc ''0'' \<and> n \<noteq> asc ''NaN'')"
| "truthy (JString s) = (s \<noteq> [])"
| "truthy (JArray xs) = True"
| "truthy (JObject kvs) = True"

text \<open>\<open>String(v)\<close>; inside an array \<open>null\<close> prints as the empty string.\<close>

fun toStringJS :: "json \<Rightarrow> jsstring" where
  "toStringJS JNull = asc ''null''"
| "toStringJS (JBool b) = (if b then asc ''true'' else asc ''false'')"
| "toStringJS (JNumber n) = n"
| "toStringJS (JString s) = s"
| "toStringJS (JArray xs) =
     join [comma] (map (\<lambda>x. if x = JNull then [] else toStringJS x) xs)"
| "toStringJS (JObject kvs) = asc ''[object Object]''"

section \<open>Social content: \<open>services/socialContent.ts\<close>\<close>

datatype platform = Instagram | Facebook | Pinterest

record content =
  title :: jsstring
  description :: jsstring
  tags :: jsstring

fun DEFAULT_CONTENT :: "platform \<Rightarrow> content" where
  "DEFAULT_CONTENT Instagram = \<lparr>
     title = asc ''Default Instagram Title'',
     description = asc ''This is a detailed and engaging Instagram caption optimized for SEO and designed to capture attention. It provides all necessary context and information.'',
     tags = asc ''optimized, instagram, social, seo, design, creative'' \<rparr>"
| "DEFAULT_CONTENT Facebook = \<lparr>
     title = asc ''Default Facebook Title'',
     description = asc ''This is a detailed and engaging Facebook post optimized for SEO, designed to capture attention and provide all necessary information.'',
     tags = asc ''optimized, facebook, social, seo, design, creative'' \<rparr>"
| "DEFAULT_CONTENT Pinterest = \<lparr>
     title = asc ''Default Pin Title'',
     description = asc ''This is a detailed and engaging Pinterest pin description optimized for SEO, providing all necessary information to enhance your ranking and attract your audience.'',
     tags = asc ''optimized, pinterest, seo, design, creative'' \<rparr>"

definition MAX_TITLE_LENGTH :: nat where "MAX_TITLE_LENGTH = 40"
definition MIN_DESCRIPTION_LENGTH :: nat where "MIN_DESCRIPTION_LENGTH = 100"
definition MAX_DESCRIPTION_LENGTH :: nat where "MAX_DESCRIPTION_LENGTH = 1000"



text \<open>
  \<open>parsed.title?.trim()\<close> and \<open>String(parsed.title).trim()\<close>. \<open>None\<close> stands for every way the
  guard of line 93 ends in \<open>return null\<close>: the property is absent or \<open>null\<close> (the optional
  chain gives \<open>undefined\<close>, which is falsy), the value is not a string (calling its missing
  \<open>trim\<close> throws a \<open>TypeError\<close>, which the \<open>catch\<close> of line 128 turns into \<open>null\<close>), or
  \<open>parsed\<close> is no object at all.
\<close>

definition trimmedField :: "json \<Rightarrow> jsstring \<Rightarrow> jsstring option" where
  "trimmedField parsed k =
     (case parsed of
        JObject kvs \<Rightarrow>
          (case map_of kvs k of Some (JString s) \<Rightarrow> Some (trim s) | _ \<Rightarrow> None)
      | _ \<Rightarrow> None)"

text \<open>\<open>String(parsed.tags || '').trim()\<close>, line 102.\<close>

definition tagsText :: "json \<Rightarrow> jsstring" where
  "tagsText parsed =
     trim (case parsed of
             JObject kvs \<Rightarrow>
               (case map_of kvs (asc ''tags'') of
                  None \<Rightarrow> []
                | Some v \<Rightarrow> if truthy v then toStringJS v else [])
           | _ \<Rightarrow> [])"

text \<open>Lines 105 to 122: the three repairs, applied in turn to the record \<open>formatted\<close>.\<close>

definition normalizeFields :: "platform \<Rightarrow> content \<Rightarrow> content" where
  "normalizeFields p formatted =
     (let f1 = (if length (title formatted) > MAX_TITLE_LENGTH
                then formatted\<lparr>title :=
                       substring0 (title formatted) (MAX_TITLE_LENGTH - 3) @ ellipsis\<rparr>
                else formatted);
          f2 = (if length (description f1) < MIN_DESCRIPTION_LENGTH
                then f1\<lparr>description := description (DEFAULT_CONTENT p)\<rparr>
                else if length (description f1) > MAX_DESCRIPTION_LENGTH
                then f1\<lparr>description :=
                       substring0 (description f1) (MAX_DESCRIPTION_LENGTH - 3) @ ellipsis\<rparr>
                else f1);
          f3 = (if p = Pinterest \<and> tags f2 = []
                then f2\<lparr>tags := tags (DEFAULT_CONTENT Pinterest)\<rparr>
                else if tags f2 = []
                then f2\<lparr>tags := tags (DEFAULT_CONTENT p)\<rparr>
                else f2)
      in f3)"

text \<open>Lines 92 to 127, the body of the \<open>try\<close> after \<open>JSON.parse\<close>; \<open>None\<close> is \<open>return null\<close>.\<close>

definition validateParsed :: "json \<Rightarrow> platform \<Rightarrow> content option" where
  "validateParsed parsed p =
     (case (trimmedField parsed (asc ''title''), trimmedField parsed (asc ''description'')) of
        (Some t, Some d) \<Rightarrow>
          if t = [] \<or> d = [] then None
          else Some (normalizeFields p
                 \<lparr>title = t, description = d, tags = tagsText parsed\<rparr>)
      | _ \<Rightarrow> None)"


text \<open>
  \<open>formatContent\<close>, lines 134 to 170. The emoji literals are taken unit by unit from the
  source file, where they are stored as the three units U+201A U+00FA U+00AE and the four
  units U+F8FF U+00FC U+00E5 U+00FC; the Pinterest call to action starts with
  U+F8FF U+00FC U+00EE U+00E7.
\<close>

record SocialContent =
  description_s :: jsstring
  hashtags :: jsstring

definition sparkles_lit :: jsstring where "sparkles_lit = [8218, 250, 174]"
definition star_lit :: jsstring where "star_lit = [63743, 252, 229, 252]"
definition magnifier_lit :: jsstring where "magnifier_lit = [63743, 252, 238, 231]"

fun cta :: "platform \<Rightarrow> jsstring" where
  "cta Pinterest = magnifier_lit @ asc '' Save for inspiration!''"
| "cta Facebook = star_lit @ asc '' Check it out now!''"
| "cta Instagram = sparkles_lit @ asc '' Shop now!''"

text \<open>A tag that starts with \<open>#\<close> is kept, any other gets \<open>#\<close> in front (line 162).\<close>

definition hashPrefix :: "jsstring \<Rightarrow> jsstring" where
  "hashPrefix tag = (if startsWith tag [hash] then tag else hash # tag)"

text \<open>\<open>.map(tag => tag.trim()).filter(Boolean)\<close>: an empty string is the only falsy string.\<close>

definition trimAll :: "jsstring list \<Rightarrow> jsstring list" where
  "trimAll ts = filter (\<lambda>t. t \<noteq> []) (map trim ts)"

text \<open>The chain of lines 158 to 163: split at commas, trim, drop the empty, prefix, join with a space.\<close>

definition formatTags :: "jsstring \<Rightarrow> jsstring" where
  "formatTags t = join [32] (map hashPrefix (trimAll (split comma t)))"

definition formatContent :: "content option \<Rightarrow> platform \<Rightarrow> SocialContent" where
  "formatContent c p =
     (case c of
        None \<Rightarrow>
          \<lparr>description_s = description (DEFAULT_CONTENT p), hashtags = tags (DEFAULT_CONTENT p)\<rparr>
      | Some content \<Rightarrow>
          (let d = (if \<not> includes_js (description content) sparkles_lit
                      \<and> \<not> includes_js (description content) star_lit
                    then description content @ [10, 10] @ cta p
                    else description content);
               h = (if p \<noteq> Pinterest
                    then formatTags (tags content)
                    else tags content)
           in \<lparr>description_s = d, hashtags = h\<rparr>))"

section \<open>Instagram content: \<open>services/instagramContent.ts\<close>\<close>

definition ig_maxLength :: nat where "ig_maxLength = 150"
definition ig_emotional :: "jsstring list" where
  "ig_emotional = map asc [''special'', ''unique'', ''perfect'', ''memorable'']"
definition ig_personalization :: "jsstring list" where
  "ig_personalization = map asc [''personalize'', ''custom'', ''your'']"
definition ig_benefits :: "jsstring list" where
  "ig_benefits = map asc [''quality'', ''premium'', ''exclusive'']"
definition ig_cta :: "jsstring list" where
  "ig_cta = map asc [''order now'', ''shop now'', ''get yours'']"
definition ig_hashtags_min :: nat where "ig_hashtags_min = 10"
definition ig_hashtags_max :: nat where "ig_hashtags_max = 15"
definition ig_categories :: "(jsstring \<times> jsstring list) list" where
  "ig_categories =
     [(asc ''easter'', map asc [''easter'', ''spring'', ''holiday'']),
      (asc ''product'', map asc [''gift'', ''decor'', ''design'']),
      (asc ''personalization'', map asc [''custom'', ''personalized'', ''unique'']),
      (asc ''style'', map asc [''handmade'', ''premium'', ''quality''])]"

definition sparkles :: jsstring where "sparkles = [10024]"
definition glowing_star :: jsstring where "glowing_star = [55356, 57119]"
definition palette :: jsstring where "palette = [55356, 57256]"

text \<open>\<open>words.some(word => text.toLowerCase().includes(word))\<close>\<close>

definition someIncluded :: "jsstring list \<Rightarrow> jsstring \<Rightarrow> bool" where
  "someIncluded ws text = list_ex (\<lambda>w. includes_js (toLowerCase text) w) ws"

definition emotional_suffix :: jsstring where
  "emotional_suffix = asc '' Make your space special with a personalized touch! '' @ sparkles"
definition benefits_suffix :: jsstring where
  "benefits_suffix = asc '' Premium quality guaranteed. '' @ glowing_star"
definition cta_suffix :: jsstring where
  "cta_suffix = asc '' Order now! '' @ palette"

text \<open>\<open>validateDescription\<close>, lines 31 to 70; \<open>Inl\<close> is the message of the \<open>Error\<close> thrown.\<close>

definition validateDescription :: "jsstring \<Rightarrow> jsstring + jsstring" where
  "validateDescription d =
     (if d = [] then Inl (asc ''Error: Description is required'')
      else
        let v0 = trim d;
            v1 = (if length v0 > ig_maxLength
                  then substring0 v0 (ig_maxLength - 3) @ ellipsis else v0);
            hasEmotional = someIncluded ig_emotional v1;
            hasPersonalization = someIncluded ig_personalization v1;
            hasBenefits = someIncluded ig_benefits v1;
            hasCTA = someIncluded ig_cta v1;
            v2 = (if \<not> hasEmotional \<or> \<not> hasPersonalization then v1 @ emotional_suffix else v1);
            v3 = (if \<not> hasBenefits then v2 @ benefits_suffix else v2);
            v4 = (if \<not> hasCTA then v3 @ cta_suffix else v3);
            v5 = (if \<not> includes_js v4 sparkles \<and> \<not> includes_js v4 glowing_star
                  then sparkles @ [32] @ v4 else v4)
        in Inr v5)"

text \<open>
  Two cuts through \<open>validateDescription\<close>, for stating facts about it: the value of
  \<open>validatedDescription\<close> after the truncation of lines 36 to 41, and the suffixes that lines
  54 to 62 append to a text \<open>v\<close> left by the truncation.
\<close>

definition ig_truncated :: "jsstring \<Rightarrow> jsstring" where
  "ig_truncated d =
     (if length (trim d) > ig_maxLength
      then substring0 (trim d) (ig_maxLength - 3) @ ellipsis else trim d)"

definition ig_suffixes :: "jsstring \<Rightarrow> jsstring" where
  "ig_suffixes v =
     (if \<not> someIncluded ig_emotional v \<or> \<not> someIncluded ig_personalization v
      then emotional_suffix else [])
     @ (if \<not> someIncluded ig_benefits v then benefits_suffix else [])
     @ (if \<not> someIncluded ig_cta v then cta_suffix else [])"

text \<open>
  \<open>validateHashtags\<close>, lines 72 to 106. The argument is typed \<open>string[]\<close>, so the guard of
  line 73 never fires on it. \<open>cleanedTags.length = 15\<close> cuts the array to its first 15.
\<close>

definition missingCategories :: "jsstring list \<Rightarrow> jsstring list" where
  "missingCategories lowerTags =
     map fst (filter (\<lambda>(category, keywords).
        \<not> list_ex (\<lambda>word. list_ex (\<lambda>tag. includes_js tag word) lowerTags) keywords)
        ig_categories)"

definition validateHashtags :: "jsstring list \<Rightarrow> jsstring + jsstring list" where
  "validateHashtags ts =
     (let cleanedTags = map hashPrefix (trimAll ts)
      in if length cleanedTags < ig_hashtags_min
         then Inl (asc ''Error: Minimum 10 hashtags required'')
         else
           let lowerTags = map toLowerCase cleanedTags;
               missing = missingCategories lowerTags
           in if length missing > 0
              then Inl (asc ''Error: Missing hashtags for categories: '' @ join (asc '', '') missing)
              else Inr (if length cleanedTags > ig_hashtags_max
                        then take ig_hashtags_max cleanedTags else cleanedTags))"

section \<open>The schema validator: \<open>services/validation.ts\<close>\<close>

text \<open>
  The schema is built with the Zod library, which is not part of the repository. Its documented
  behaviour is modelled: every key of an object schema is parsed and the issues of all keys are
  gathered in the order of the keys; a string schema runs each of its length checks; a
  \<open>refine\<close> runs whenever the value before it has the right type, also after an earlier check
  has failed, and adds its message; a value of the wrong type gives the single issue
  \<open>Required\<close> (absent) or \<open>Expected t, received u\<close>, a value that fits no branch of a union
  gives \<open>Invalid input\<close>, and nothing further is checked on it.
\<close>

datatype ErrorCode =
    INVALID_JSON | MISSING_INPUT | IMAGE_ERROR | CONTENT_ERROR
  | MODEL_ERROR | VALIDATION_ERROR | API_ERROR | UNKNOWN_ERROR

text \<open>
  \<open>ContentError\<close> with the parts of its context that the validators can fill. The request
  identifier and the time stamp are generated afresh and are left out.
\<close>

record ContentError =
  message :: jsstring
  code :: ErrorCode
  validationErrors :: "jsstring list"
  missingFields :: "jsstring list"
  attemptedModel :: jsstring

text \<open>\<open>new ContentError(message, code)\<close> without context data: every list of the context is empty.\<close>

definition newContentError :: "jsstring \<Rightarrow> ErrorCode \<Rightarrow> ContentError" where
  "newContentError m c =
     \<lparr>message = m, code = c, validationErrors = [], missingFields = [], attemptedModel = []\<rparr>"

record validated =
  title_v :: jsstring
  description_v :: jsstring
  tags_v :: "jsstring list"

fun typeName :: "json \<Rightarrow> jsstring" where
  "typeName JNull = asc ''null''"
| "typeName (JBool b) = asc ''boolean''"
| "typeName (JNumber n) = asc ''number''"
| "typeName (JString s) = asc ''string''"
| "typeName (JArray xs) = asc ''array''"
| "typeName (JObject kvs) = asc ''object''"

definition invalidType :: "jsstring \<Rightarrow> json option \<Rightarrow> jsstring" where
  "invalidType expected v =
     (case v of
        None \<Rightarrow> asc ''Required''
      | Some x \<Rightarrow> asc ''Expected '' @ expected @ asc '', received '' @ typeName x)"

text \<open>\<open>!val.includes('{') && !val.includes('}')\<close>\<close>

definition noJSONSyntax :: "jsstring \<Rightarrow> bool" where
  "noJSONSyntax val \<longleftrightarrow> \<not> includes_js val [lbrace] \<and> \<not> includes_js val [rbrace]"

definition when_failed :: "bool \<Rightarrow> jsstring \<Rightarrow> jsstring list" where
  "when_failed ok msg = (if ok then [] else [msg])"

definition title_maxLength :: nat where "title_maxLength = 50"
definition title_minLength :: nat where "title_minLength = 1"
definition description_maxLength :: nat where "description_maxLength = 200"
definition description_minLength :: nat where "description_minLength = 150"
definition tags_min :: nat where "tags_min = 4"
definition tags_max :: nat where "tags_max = 12"

definition titleIssues :: "json option \<Rightarrow> jsstring list" where
  "titleIssues v =
     (case v of
        Some (JString val) \<Rightarrow>
          when_failed (title_minLength \<le> length val) (asc ''Title is required'')
          @ when_failed (length val \<le> title_maxLength)
              (asc ''Title must be 50 characters or less'')
          @ when_failed (noJSONSyntax val) (asc ''Title cannot contain JSON syntax'')
      | _ \<Rightarrow> [invalidType (asc ''string'') v])"

definition descriptionIssues :: "json option \<Rightarrow> jsstring list" where
  "descriptionIssues v =
     (case v of
        Some (JString val) \<Rightarrow>
          when_failed (description_minLength \<le> length val)
              (asc ''Description must be at least 150 characters'')
          @ when_failed (length val \<le> description_maxLength)
              (asc ''Description must be 200 characters or less'')
          @ when_failed (noJSONSyntax val) (asc ''Description cannot contain JSON syntax'')
      | _ \<Rightarrow> [invalidType (asc ''string'') v])"

text \<open>
  The union of a string and an array of strings, and the transform of line 41: a string is
  split at commas, its parts trimmed and the empty ones dropped; an array is used as it is.
\<close>

fun stringOf :: "json \<Rightarrow> jsstring option" where
  "stringOf (JString s) = Some s"
| "stringOf _ = None"

fun stringsOf :: "json list \<Rightarrow> jsstring list option" where
  "stringsOf [] = Some []"
| "stringsOf (x # xs) =
     (case (stringOf x, stringsOf xs) of (Some s, Some ss) \<Rightarrow> Some (s # ss) | _ \<Rightarrow> None)"

definition coerceTags :: "json option \<Rightarrow> jsstring list option" where
  "coerceTags v =
     (case v of
        Some (JString val) \<Rightarrow> Some (trimAll (split comma val))
      | Some (JArray xs) \<Rightarrow> stringsOf xs
      | _ \<Rightarrow> None)"

definition tagsIssues :: "json option \<Rightarrow> jsstring list" where
  "tagsIssues v =
     (case coerceTags v of
        None \<Rightarrow> [asc ''Invalid input'']
      | Some ts \<Rightarrow>
          when_failed (tags_min \<le> length ts \<and> length ts \<le> tags_max)
              (asc ''Must have between 4 and 12 tags'')
          @ when_failed (list_all (\<lambda>tag. length (trim tag) > 0) ts)
              (asc ''Tags cannot be empty''))"

text \<open>\<open>ContentSchema.parse(data)\<close>: \<open>Inl\<close> carries the messages of the \<open>ZodError\<close>'s issues.\<close>

definition ContentSchema_parse :: "json \<Rightarrow> jsstring list + validated" where
  "ContentSchema_parse data =
     (case data of
        JObject kvs \<Rightarrow>
          (let issues = titleIssues (map_of kvs (asc ''title''))
                        @ descriptionIssues (map_of kvs (asc ''description''))
                        @ tagsIssues (map_of kvs (asc ''tags''))
           in if issues \<noteq> [] then Inl issues
              else (case (map_of kvs (asc ''title''), map_of kvs (asc ''description''),
                          coerceTags (map_of kvs (asc ''tags''))) of
                      (Some (JString t), Some (JString d), Some ts) \<Rightarrow>
                        Inr \<lparr>title_v = t, description_v = d, tags_v = ts\<rparr>
                    | _ \<Rightarrow> Inl issues))
      | _ \<Rightarrow> Inl [invalidType (asc ''object'') (Some data)])"

definition requiredFields :: "jsstring list" where
  "requiredFields = map asc [''title'', ''description'', ''tags'']"

text \<open>\<open>requiredFields.filter(field => !(field in data))\<close>\<close>

definition missingFieldsOf :: "(jsstring \<times> json) list \<Rightarrow> jsstring list" where
  "missingFieldsOf kvs = filter (\<lambda>field. map_of kvs field = None) requiredFields"

text \<open>
  \<open>Validator.validateJSON\<close>, lines 57 to 95. Every \<open>throw\<close> of the \<open>try\<close> block, the
  \<open>SyntaxError\<close> of \<open>JSON.parse\<close> among them, is caught at line 86 and its message is put
  behind one fixed prefix.
\<close>

definition validateJSON :: "parser \<Rightarrow> jsstring \<Rightarrow> jsstring + json" where
  "validateJSON parse input =
     (let trimmedInput = trim input;
          attempt =
            (if \<not> startsWith trimmedInput [lbrace] \<or> \<not> endsWith trimmedInput [rbrace]
             then Inl (asc ''Input must be a JSON object'')
             else (case parse trimmedInput of
                     Inl m \<Rightarrow> Inl m
                   | Inr (JObject kvs) \<Rightarrow>
                       (let missing = missingFieldsOf kvs
                        in if length missing > 0
                           then Inl (asc ''Missing required fields: '' @ join (asc '', '') missing)
                           else Inr (JObject kvs))
                   | Inr _ \<Rightarrow> Inl (asc ''Input must be a JSON object'')))
      in case attempt of
           Inl m \<Rightarrow>
             Inl (asc ''Content generation failed due to invalid JSON structure: '' @ m)
         | Inr data \<Rightarrow> Inr data)"

text \<open>\<open>Validator.validateContent\<close>, lines 97 to 135.\<close>

definition Validator_validateContent :: "parser \<Rightarrow> json \<Rightarrow> jsstring + validated" where
  "Validator_validateContent parse c =
     (case (case c of JString s \<Rightarrow> parse s | _ \<Rightarrow> Inr c) of
        Inl m \<Rightarrow> Inl (asc ''Content validation failed: '' @ m)
      | Inr data \<Rightarrow>
          (case ContentSchema_parse data of
             Inl issues \<Rightarrow> Inl (asc ''Content validation failed: '' @ join (asc '', '') issues)
           | Inr v \<Rightarrow> Inr v))"

text \<open>\<open>Validator.validateAndTransform\<close>, lines 137 to 155; \<open>Inl\<close> is the \<open>ContentError\<close> thrown.\<close>

definition validateAndTransform :: "parser \<Rightarrow> jsstring \<Rightarrow> ContentError + validated" where
  "validateAndTransform parse input =
     (case validateJSON parse input of
        Inl e \<Rightarrow> Inl (newContentError e INVALID_JSON)
      | Inr data \<Rightarrow>
          (case Validator_validateContent parse data of
             Inl e \<Rightarrow> Inl (newContentError e VALIDATION_ERROR)
           | Inr v \<Rightarrow> Inr v))"

section \<open>The hand-written output check: \<open>services/validation/index.ts\<close>\<close>

definition output_title_maxLength :: nat where "output_title_maxLength = 50"
definition output_description_minLength :: nat where "output_description_minLength = 150"
definition output_description_maxLength :: nat where "output_description_maxLength = 200"
definition output_tags_min :: nat where "output_tags_min = 10"
definition output_tags_max :: nat where "output_tags_max = 12"

text \<open>
  \<open>Validator.validateOutput\<close>, lines 110 to 185: \<open>Inl\<close> is the \<open>error\<close> of
  \<open>{ isValid: false, error }\<close>, \<open>Inr ()\<close> is \<open>{ isValid: true }\<close>. Each check returns at once.
\<close>

definition titleOK :: "json option \<Rightarrow> bool" where
  "titleOK v =
     (case v of
        Some (JString t) \<Rightarrow> \<not> (length t = 0 \<or> length t > output_title_maxLength)
      | _ \<Rightarrow> False)"

definition descriptionOK :: "json option \<Rightarrow> bool" where
  "descriptionOK v =
     (case v of
        Some (JString d) \<Rightarrow>
          \<not> (length d < output_description_minLength \<or> length d > output_description_maxLength)
      | _ \<Rightarrow> False)"

definition tagsOK :: "json option \<Rightarrow> bool" where
  "tagsOK v =
     (case v of
        Some (JArray xs) \<Rightarrow>
          \<not> (length xs < output_tags_min \<or> length xs > output_tags_max
             \<or> \<not> list_all (\<lambda>tag. stringOf tag \<noteq> None) xs)
      | _ \<Rightarrow> False)"

definition validateOutput :: "parser \<Rightarrow> json \<Rightarrow> jsstring + unit" where
  "validateOutput parse c =
     (case (case c of JString s \<Rightarrow> parse s | _ \<Rightarrow> Inr c) of
        Inl m \<Rightarrow> Inl (asc ''Content validation failed due to invalid JSON structure'')
      | Inr (JObject kvs) \<Rightarrow>
          (let missing = missingFieldsOf kvs
           in if length missing > 0
              then Inl (asc ''Missing required fields: '' @ join (asc '', '') missing)
              else if \<not> titleOK (map_of kvs (asc ''title''))
              then Inl (asc ''Title must be a non-empty string with maximum 50 characters'')
              else if \<not> descriptionOK (map_of kvs (asc ''description''))
              then Inl (asc ''Description must be between 150 and 200 characters'')
              else if \<not> tagsOK (map_of kvs (asc ''tags''))
              then Inl (asc ''Tags must be an array of 10-12 strings'')
              else Inr ())
      | Inr _ \<Rightarrow> Inl (asc ''Content must be a valid JSON object''))"

section \<open>The strict schema: \<open>services/validation/schema.ts\<close>\<close>

definition strict_title_minLength :: nat where "strict_title_minLength = 10"
definition strict_title_maxLength :: nat where "strict_title_maxLength = 50"
definition title_requiredWords :: "jsstring list" where
  "title_requiredWords = map asc [''personalized'', ''custom'', ''unique'', ''special'',
     ''mom'', ''mother'', ''mug'', ''gift'']"
definition title_bannedWords :: "jsstring list" where
  "title_bannedWords = map asc [''nice'', ''good'', ''great'', ''awesome'', ''cool'', ''best'']"
definition title_emotionalWords :: "jsstring list" where
  "title_emotionalWords = map asc [''special'', ''cherished'', ''heartfelt'', ''memorable'',
     ''delightful'', ''treasured'', ''beloved'', ''precious'', ''loving'', ''thoughtful'']"
definition description_requiredPhrases :: "jsstring list list" where
  "description_requiredPhrases = map (map asc)
     [[''perfect for'', ''ideal for'', ''designed for''],
      [''customize'', ''personalize'', ''make it yours''],
      [''order now'', ''shop now'', ''get yours''],
      [''celebrate'', ''cherish'', ''treasure''],
      [''special'', ''meaningful'', ''memorable''],
      [''mom'', ''mother'', ''mama''],
      [''love'', ''appreciation'', ''gratitude'']]"
definition strict_tags_min :: nat where "strict_tags_min = 10"
definition strict_tags_max :: nat where "strict_tags_max = 12"
definition tag_minLength :: nat where "tag_minLength = 3"
definition tag_maxLength :: nat where "tag_maxLength = 30"
definition requiredCategories :: "jsstring list" where
  "requiredCategories = map asc [''product_type'', ''design_style'', ''occasion'',
     ''personalization'', ''emotion'', ''target_audience'', ''gifting'', ''mothers_day'']"

text \<open>\<open>words.some(word => lowerText.includes(word.toLowerCase()))\<close>, used for required, emotional and banned words.\<close>

definition containsWords :: "jsstring \<Rightarrow> jsstring list \<Rightarrow> bool" where
  "containsWords text ws =
     list_ex (\<lambda>word. includes_js (toLowerCase text) (toLowerCase word)) ws"

definition hasRequiredPhrases :: "jsstring \<Rightarrow> jsstring list list \<Rightarrow> bool" where
  "hasRequiredPhrases text phraseGroups =
     list_all (\<lambda>group. list_ex (\<lambda>phrase.
        includes_js (toLowerCase text) (toLowerCase phrase)) group) phraseGroups"

text \<open>
  A regular expression \<open>/a|b|c/i\<close> of literal alternatives, none anchored: it matches when one
  alternative occurs in the text, letters compared without case. Without the \<open>u\<close> flag the
  comparison folds ASCII letters only.
\<close>

definition foldUnit :: "nat \<Rightarrow> nat" where
  "foldUnit c = (if 65 \<le> c \<and> c \<le> 90 then c + 32 else c)"

definition testAny :: "jsstring list \<Rightarrow> jsstring \<Rightarrow> bool" where
  "testAny alternatives text = list_ex (\<lambda>a. includes_js (map foldUnit text) a) alternatives"

definition hasValidDescription :: "jsstring \<Rightarrow> bool" where
  "hasValidDescription text \<longleftrightarrow>
     testAny (map asc [''features'', ''includes'', ''designed'', ''made with'', ''crafted'', ''created'']) text
     \<and> testAny (map asc [''perfect for'', ''celebrate'', ''cherish'', ''treasure'', ''create'']) text
     \<and> testAny (map asc [''customize'', ''personalize'', ''your'', ''name'', ''text'']) text
     \<and> testAny (map asc [''special'', ''meaningful'', ''memorable'', ''unique'', ''cherished'']) text
     \<and> testAny (map asc [''coffee'', ''tea'', ''drink'', ''beverage'', ''morning'']) text
     \<and> testAny (map asc [''perfect gift'', ''ideal present'', ''thoughtful gift'', ''special gift'']) text
     \<and> testAny ([asc ''mother'', asc ''mom'', asc ''mama'', asc ''mother'' @ [39] @ asc ''s day'',
                  asc ''maternal'']) text
     \<and> testAny (map asc [''order'', ''shop'', ''get yours'', ''make it yours'']) text"

text \<open>\<open>\w\<close>: a letter, a digit or the underscore.\<close>

definition isWordUnit :: "nat \<Rightarrow> bool" where
  "isWordUnit c \<longleftrightarrow> (48 \<le> c \<and> c \<le> 57) \<or> (65 \<le> c \<and> c \<le> 90) \<or> c = 95 \<or> (97 \<le> c \<and> c \<le> 122)"

text \<open>\<open>tag.split(/\s+/)\<close>: the text is cut at every maximal run of white space.\<close>

function splitWs :: "jsstring \<Rightarrow> jsstring list" where
  "splitWs [] = [[]]"
| "splitWs (c # cs) =
     (if isWhiteSpace c then [] # splitWs (dropWhile isWhiteSpace cs)
      else (case splitWs cs of [] \<Rightarrow> [[c]] | w # ws \<Rightarrow> (c # w) # ws))"
  by pat_completeness auto
termination
  by (relation "measure length") (auto simp: length_dropWhile_le less_Suc_eq_le)

definition isValidTag :: "jsstring \<Rightarrow> bool" where
  "isValidTag tag \<longleftrightarrow>
     (if length tag < tag_minLength \<or> length tag > tag_maxLength
         \<or> list_ex (\<lambda>c. \<not> isWordUnit c \<and> \<not> isWhiteSpace c \<and> c \<noteq> 45) tag
         \<or> includes_js tag (asc ''  '')
         \<or> map foldUnit tag \<in> set (map asc [''the'', ''and'', ''or'', ''in'', ''on'', ''at'', ''to''])
      then False
      else if length (splitWs tag) > 3 then False
      else if testAny (map asc [''best'', ''amazing'', ''awesome'', ''incredible'', ''perfect'']) tag
      then False
      else True)"

definition categorizeTag :: "jsstring \<Rightarrow> jsstring" where
  "categorizeTag tag =
     (let lowerTag = toLowerCase tag
      in if testAny (map asc [''mug'', ''cup'', ''coffee'', ''tea'', ''drinkware'']) lowerTag
         then asc ''product_type''
         else if testAny (map asc [''handmade'', ''elegant'', ''classic'', ''modern'']) lowerTag
         then asc ''design_style''
         else if testAny (map asc [''mothers day'', ''celebration'', ''holiday'']) lowerTag
         then asc ''occasion''
         else if testAny (map asc [''custom'', ''personalized'', ''unique'']) lowerTag
         then asc ''personalization''
         else if testAny (map asc [''special'', ''cherished'', ''heartfelt'', ''memorable'']) lowerTag
         then asc ''emotion''
         else if testAny (map asc [''mom'', ''mother'', ''parent'', ''family'']) lowerTag
         then asc ''target_audience''
         else if testAny (map asc [''gift idea'', ''perfect gift'', ''thoughtful present'']) lowerTag
         then asc ''gifting''
         else if testAny (map asc [''mothers day gift'', ''mom present'', ''maternal'']) lowerTag
         then asc ''mothers_day''
         else asc ''other'')"

definition hasRequiredTagCategories :: "jsstring list \<Rightarrow> bool" where
  "hasRequiredTagCategories ts =
     (let categories = set (map categorizeTag ts)
      in list_all (\<lambda>cat. cat \<in> categories) requiredCategories)"

definition strictTitleIssues :: "json option \<Rightarrow> jsstring list" where
  "strictTitleIssues v =
     (case v of
        Some (JString val) \<Rightarrow>
          when_failed (strict_title_minLength \<le> length val)
              (asc ''Title must be at least 10 characters'')
          @ when_failed (length val \<le> strict_title_maxLength)
              (asc ''Title must be 50 characters or less'')
          @ when_failed (noJSONSyntax val) (asc ''Title cannot contain JSON syntax'')
          @ when_failed (containsWords val title_requiredWords)
              (asc ''Title must include required keywords'')
          @ when_failed (containsWords val title_emotionalWords)
              (asc ''Title must include emotional or engaging words'')
          @ when_failed (\<not> containsWords val title_bannedWords)
              (asc ''Title contains generic or banned words'')
      | _ \<Rightarrow> [invalidType (asc ''string'') v])"

definition descriptionElementsMessage :: jsstring where
  "descriptionElementsMessage =
     asc ''Description must include product features, benefits, personalization, emotional appeal, practical uses, gifting value, Mother''
     @ [39] @ asc ''s Day value, and a call to action''"

definition strictDescriptionIssues :: "json option \<Rightarrow> jsstring list" where
  "strictDescriptionIssues v =
     (case v of
        Some (JString val) \<Rightarrow>
          when_failed (description_minLength \<le> length val)
              (asc ''Description must be at least 150 characters'')
          @ when_failed (length val \<le> description_maxLength)
              (asc ''Description must be 200 characters or less'')
          @ when_failed (noJSONSyntax val) (asc ''Description cannot contain JSON syntax'')
          @ when_failed (hasValidDescription val) descriptionElementsMessage
          @ when_failed (hasRequiredPhrases val description_requiredPhrases)
              (asc ''Description must include required marketing phrases'')
      | _ \<Rightarrow> [invalidType (asc ''string'') v])"

definition tagCategoriesMessage :: jsstring where
  "tagCategoriesMessage =
     asc ''Tags must cover all required categories: product type, design style, occasion, personalization, emotion, target audience, gifting, and Mother''
     @ [39] @ asc ''s Day''"

text \<open>
  The five refinements on the tag list, lines 442 to 461. \<open>new Set(tags).size\<close> counts the
  distinct strings; \<open>Set\<close> compares strings unit by unit.
\<close>

definition tagListIssues :: "jsstring list \<Rightarrow> jsstring list" where
  "tagListIssues ts =
     when_failed (strict_tags_min \<le> length ts \<and> length ts \<le> strict_tags_max)
         (asc ''Must have between 10 and 12 tags'')
     @ when_failed (list_all isValidTag ts)
         (asc ''Tags must be between 3-30 characters and contain only letters, numbers, spaces, and hyphens'')
     @ when_failed (length (remdups ts) = length ts) (asc ''Tags must be unique'')
     @ when_failed (\<not> list_ex (\<lambda>tag. length (split 32 tag) > 3) ts)
         (asc ''Tags should not be full sentences'')
     @ when_failed (hasRequiredTagCategories ts) tagCategoriesMessage"

definition strictTagsIssues :: "json option \<Rightarrow> jsstring list" where
  "strictTagsIssues v =
     (case v of
        Some (JString val) \<Rightarrow> tagListIssues (trimAll (split comma val))
      | _ \<Rightarrow> [invalidType (asc ''string'') v])"

definition StrictContentSchema_parse :: "json \<Rightarrow> jsstring list + validated" where
  "StrictContentSchema_parse data =
     (case data of
        JObject kvs \<Rightarrow>
          (let issues = strictTitleIssues (map_of kvs (asc ''title''))
                        @ strictDescriptionIssues (map_of kvs (asc ''description''))
                        @ strictTagsIssues (map_of kvs (asc ''tags''))
           in if issues \<noteq> [] then Inl issues
              else (case (map_of kvs (asc ''title''), map_of kvs (asc ''description''),
                          map_of kvs (asc ''tags'')) of
                      (Some (JString t), Some (JString d), Some (JString g)) \<Rightarrow>
                        Inr \<lparr>title_v = t, description_v = d,
                             tags_v = trimAll (split comma g)\<rparr>
                    | _ \<Rightarrow> Inl issues))
      | _ \<Rightarrow> Inl [invalidType (asc ''object'') (Some data)])"

text \<open>\<open>Validator.validateContent\<close> of \<open>services/validation/validator.ts\<close>, lines 53 to 91, over the strict schema.\<close>

definition Strict_validateContent :: "parser \<Rightarrow> json \<Rightarrow> jsstring + validated" where
  "Strict_validateContent parse c =
     (case (case c of JString s \<Rightarrow> parse s | _ \<Rightarrow> Inr c) of
        Inl m \<Rightarrow> Inl (asc ''Content validation failed: '' @ m)
      | Inr data \<Rightarrow>
          (case StrictContentSchema_parse data of
             Inl issues \<Rightarrow> Inl (asc ''Content validation failed: '' @ join (asc '', '') issues)
           | Inr v \<Rightarrow> Inr v))"

section \<open>Marketplace content: the OpenAI service, second document of \<open>App.tsx\<close>\<close>

text \<open>
  \<open>analyzeImageAndGenerateContent\<close> from the point where the reply has been parsed, lines 307
  to 334 of the file. The parsed object is taken with its three fields as strings, the types
  that \<open>GeneratedContent\<close> declares for them; a field that is absent is \<open>undefined\<close>, which the
  guard of line 309 treats like the empty string, so both are the empty list here. The field
  \<open>imageAnalysis\<close> of the result is always the empty object and is left out.
\<close>

record GeneratedContent =
  title_g :: jsstring
  description_g :: jsstring
  tags_g :: jsstring
  keywords_g :: "jsstring list"

text \<open>
  The callback of \<open>filter\<close>, lines 319 to 322: the tag is not empty and
  \<open>tag.split(/\s+/)\<close> has two to five parts.
\<close>

definition isLongTail :: "jsstring \<Rightarrow> bool" where
  "isLongTail tag \<longleftrightarrow>
     (let words = splitWs tag in tag \<noteq> [] \<and> length words \<ge> 2 \<and> length words \<le> 5)"

definition analyzeImageAndGenerateContent :: "content \<Rightarrow> jsstring + GeneratedContent" where
  "analyzeImageAndGenerateContent parsed =
     (if title parsed = [] \<or> description parsed = [] \<or> tags parsed = []
      then Inl (asc ''Incomplete content structure received'')
      else
        let t = (if length (title parsed) > 50
                 then substring0 (title parsed) 47 @ ellipsis else title parsed);
            tags' = filter isLongTail (map trim (split comma (tags parsed)))
        in if length tags' < 10
           then Inl (asc ''At least 10 specific, long-tail tags are required'')
           else Inr \<lparr>title_g = t, description_g = description parsed,
                  tags_g = join (asc '', '') tags', keywords_g = tags'\<rparr>)"

section \<open>Example inputs\<close>



definition blank_title_object :: json where
  "blank_title_object = JObject
     [(asc ''title'', JString (asc ''   '')),
      (asc ''description'', JString (asc ''A mug.'')),
      (asc ''tags'', JString (asc ''mug, mom''))]"

definition no_tags_object :: json where
  "no_tags_object = JObject
     [(asc ''title'', JString (asc ''Mug'')),
      (asc ''description'', JString (asc ''A mug.''))]"

text \<open>A description of exactly 150 units that holds a word of each required group and no emoji.\<close>

definition idem_input :: jsstring where
  "idem_input = asc ''special your quality shop now '' @ replicate 120 97"

definition normalized_caption :: jsstring where
  "normalized_caption = asc ''Make your day special with premium quality. Shop now! '' @ sparkles"

definition tagged_content :: content where
  "tagged_content = \<lparr>title = asc ''Mug'', description = asc ''A mug for mom. '' @ sparkles_lit,
     tags = asc ''mug, #gift,, for mom ''\<rparr>"

definition pin_text :: jsstring where
  "pin_text = asc ''A hand painted ceramic mug for mom, made to order with her name and a short message of your own choosing.''"

definition pin_content :: content where
  "pin_content = \<lparr>title = asc ''Mug for mom'', description = pin_text, tags = asc ''mug, gift''\<rparr>"

definition pin_normalized :: content where
  "pin_normalized = \<lparr>title = asc ''Mug for mom'',
     description = pin_text @ [10, 10] @ cta Pinterest, tags = asc ''mug, gift''\<rparr>"

definition market_parsed :: content where
  "market_parsed = \<lparr>title = asc ''Mug for mom'', description = asc ''A mug for mom.'',
     tags = asc ''red mug, blue mug, mug, tall mug, mom mug, dad mug, big mug, tea mug,fun mug, new mug, a mug that is far too wordy, #art mug''\<rparr>"

definition sixteen_tags :: "jsstring list" where
  "sixteen_tags = map asc [''easter'', ''#gift'', '' custom '', ''handmade'', ''mug'', ''mom'', [],
     ''spring'', ''decor'', ''unique'', ''premium'', ''love'', ''home'', ''art'', ''cute'', ''joy'',
     ''fun'']"

text \<open>
  \<open>example_parse\<close> is \<open>JSON.parse\<close> on the example texts: it gives the object that each of
  them denotes, and throws on any other text.
\<close>

definition object_text :: jsstring where
  \<open>object_text = asc ''{"title":"Custom Mug","description":"A mug.","tags":"mug,gift"}''\<close>

definition object_value :: json where
  "object_value = JObject
     [(asc ''title'', JString (asc ''Custom Mug'')),
      (asc ''description'', JString (asc ''A mug.'')),
      (asc ''tags'', JString (asc ''mug,gift''))]"


definition no_tags_text :: jsstring where
  \<open>no_tags_text = asc ''{"title":"Mug","description":"A mug."}''\<close>

definition example_parse :: parser where
  "example_parse s =
     (if s = object_text then Inr object_value
      else if s = no_tags_text then Inr no_tags_object
      else Inl (asc ''Unexpected token''))"

definition scenario_text :: jsstring where
  \<open>scenario_text = asc ''{"title":"x","description":"short","tags":"a,b"}''\<close>

definition scenario_object :: json where
  "scenario_object = JObject
     [(asc ''title'', JString (asc ''x'')),
      (asc ''description'', JString (asc ''short'')),
      (asc ''tags'', JString (asc ''a,b''))]"

definition scenario_array_object :: json where
  "scenario_array_object = JObject
     [(asc ''title'', JString (asc ''x'')),
      (asc ''description'', JString (asc ''short'')),
      (asc ''tags'', JArray [JString (asc ''a''), JString (asc ''b'')])]"

definition scenario_parse :: parser where
  "scenario_parse s =
     (if s = scenario_text then Inr scenario_object else Inl (asc ''Unexpected token''))"

definition case_title :: jsstring where
  "case_title = asc ''Special Custom Mom Mug''"

definition case_description :: jsstring where
  "case_description = asc ''Designed for mom, this special mug is perfect for morning coffee. Personalize it with your name and celebrate her love. A thoughtful gift she will treasure. Order now!''"

definition case_tags :: jsstring where
  "case_tags = asc ''mug,handmade,mothers day,custom,special,mom,gift idea,maternal,Gift,gift''"

definition case_object :: json where
  "case_object = JObject
     [(asc ''title'', JString case_title),
      (asc ''description'', JString case_description),
      (asc ''tags'', JString case_tags)]"

definition duplicate_tags :: jsstring where
  "duplicate_tags = asc ''mug, gift, mug''"

section \<open>Basic facts about strings\<close>

lemma length_asc [simp]: "length (asc s) = length s"
  by (simp add: asc_def)

lemma length_ellipsis [simp]: "length ellipsis = 3"
  by (simp add: ellipsis_def)

lemma endsWith_append [simp]: "endsWith (s @ p) p"
  by (simp add: endsWith_def)

lemma trim_Nil [simp]: "trim [] = []"
  by (simp add: trim_def)

lemma split_not_Nil [simp]: "split sep s \<noteq> []"
  by (induction s) (auto split: list.splits)

lemma split_no_sep: "sep \<notin> set s \<Longrightarrow> split sep s = [s]"
  by (induction s) (auto split: list.splits)

lemma split_parts_no_sep: "w \<in> set (split sep s) \<Longrightarrow> sep \<notin> set w"
  by (induction s arbitrary: w) (auto split: list.splits if_splits)

lemma trim_decomp: "\<exists>a b. s = a @ trim s @ b"
proof -
  have 1: "s = takeWhile isWhiteSpace s @ dropWhile isWhiteSpace s" by simp
  have "rev (dropWhile isWhiteSpace s)
      = takeWhile isWhiteSpace (rev (dropWhile isWhiteSpace s))
        @ dropWhile isWhiteSpace (rev (dropWhile isWhiteSpace s))" by simp
  then have "dropWhile isWhiteSpace s
      = trim s @ rev (takeWhile isWhiteSpace (rev (dropWhile isWhiteSpace s)))"
    unfolding trim_def by (metis rev_append rev_rev_ident)
  with 1 show ?thesis by metis
qed

lemma set_trim: "set (trim s) \<subseteq> set s"
  using trim_decomp [of s] by (metis Un_upper1 Un_upper2 set_append subset_trans)

lemma trim_self:
  assumes "s \<noteq> []" "\<not> isWhiteSpace (hd s)" "\<not> isWhiteSpace (last s)"
  shows "trim s = s"
proof -
  from assms have 1: "dropWhile isWhiteSpace s = s" by (cases s) auto
  from assms have "dropWhile isWhiteSpace (rev s) = rev s"
    by (cases "rev s") (auto simp: last_rev hd_rev)
  with 1 show ?thesis by (simp add: trim_def)
qed

lemma trim_ends:
  assumes "trim s \<noteq> []"
  shows "\<not> isWhiteSpace (hd (trim s))" and "\<not> isWhiteSpace (last (trim s))"
proof -
  let ?u = "dropWhile isWhiteSpace s"
  let ?w = "dropWhile isWhiteSpace (rev ?u)"
  from assms have w: "?w \<noteq> []" by (simp add: trim_def)
  then have "\<not> isWhiteSpace (hd ?w)" by (rule hd_dropWhile)
  then show "\<not> isWhiteSpace (last (trim s))" using w by (simp add: trim_def last_rev)
  have u: "?u \<noteq> []"
  proof
    assume a: "?u = []"
    have "?w = []" by (subst a) simp
    with w show False by simp
  qed
  then have nu: "\<not> isWhiteSpace (hd ?u)" by (rule hd_dropWhile)
  have "rev ?u = takeWhile isWhiteSpace (rev ?u) @ ?w" by simp
  then have "?u = rev ?w @ rev (takeWhile isWhiteSpace (rev ?u))"
    by (metis rev_append rev_rev_ident)
  then have "hd ?u = hd (rev ?w)" using w by (metis hd_append2 rev_is_Nil_conv)
  with nu show "\<not> isWhiteSpace (hd (trim s))" by (simp add: trim_def)
qed

lemma trim_idem [simp]: "trim (trim s) = trim s"
proof (cases "trim s = []")
  case True then show ?thesis by simp
next
  case False then show ?thesis by (intro trim_self trim_ends)
qed


lemma set_join: "set (join sep xs) \<subseteq> set sep \<union> (\<Union>x\<in>set xs. set x)"
  by (induction sep xs rule: join.induct) auto

lemma hd_join: "xs \<noteq> [] \<Longrightarrow> hd xs \<noteq> [] \<Longrightarrow> hd (join sep xs) = hd (hd xs)"
  by (induction sep xs rule: join.induct) auto

lemma join_not_Nil: "xs \<noteq> [] \<Longrightarrow> hd xs \<noteq> [] \<Longrightarrow> join sep xs \<noteq> []"
  by (induction sep xs rule: join.induct) auto

lemma join_last_not_Nil: "xs \<noteq> [] \<Longrightarrow> last xs \<noteq> [] \<Longrightarrow> join sep xs \<noteq> []"
  by (induction sep xs rule: join.induct) auto

lemma last_join:
  "xs \<noteq> [] \<Longrightarrow> last xs \<noteq> [] \<Longrightarrow> last (join sep xs) = last (last xs)"
proof (induction sep xs rule: join.induct)
  case (3 sep x y ys)
  then have "join sep (y # ys) \<noteq> []" by (intro join_last_not_Nil) auto
  with 3 show ?case by simp
qed auto

lemma hashPrefix_not_Nil [simp]: "hashPrefix t \<noteq> []"
  by (cases t) (auto simp: hashPrefix_def startsWith_def)

lemma hd_hashPrefix [simp]: "hd (hashPrefix t) = hash"
  by (cases t) (auto simp: hashPrefix_def startsWith_def)

lemma last_hashPrefix: "t \<noteq> [] \<Longrightarrow> last (hashPrefix t) = last t"
  by (simp add: hashPrefix_def)

lemma set_hashPrefix: "set (hashPrefix t) \<subseteq> insert hash (set t)"
  by (auto simp: hashPrefix_def)

lemma hashPrefix_fixed: "s \<noteq> [] \<Longrightarrow> hd s = hash \<Longrightarrow> hashPrefix s = s"
  by (cases s) (auto simp: hashPrefix_def startsWith_def)

lemma not_ws_hash: "\<not> isWhiteSpace hash"
  by (simp add: isWhiteSpace_def hash_def)

lemma formatTags_idem: "formatTags (formatTags t) = formatTags t"
proof -
  let ?L = "map hashPrefix (trimAll (split comma t))"
  show ?thesis
  proof (cases "?L = []")
    case True
    then show ?thesis by (simp add: formatTags_def trimAll_def)
  next
    case False
    let ?o = "join [32] ?L"
    have ne: "?o \<noteq> []" using False by (intro join_not_Nil) (auto simp: hd_map)
    have hd: "hd ?o = hash" using False by (subst hd_join) (auto simp: hd_map)
    have lastL: "last ?L \<in> set ?L" using False by (rule last_in_set)
    then obtain w where w: "w \<in> set (split comma t)" "trim w \<noteq> []" "last ?L = hashPrefix (trim w)"
      by (auto simp: trimAll_def)
    have "last ?o = last (last ?L)" using False by (intro last_join) (auto simp: w)
    also have "\<dots> = last (trim w)" using w by (simp add: last_hashPrefix)
    finally have last: "\<not> isWhiteSpace (last ?o)" using trim_ends(2) [OF w(2)] by simp
    have "comma \<notin> set x" if "x \<in> set ?L" for x
    proof -
      from that obtain v where v: "v \<in> set (split comma t)" "x = hashPrefix (trim v)"
        by (auto simp: trimAll_def)
      have "comma \<notin> set v" using v(1) by (rule split_parts_no_sep)
      then have "comma \<notin> set (trim v)" using set_trim by blast
      then show ?thesis using set_hashPrefix [of "trim v"] v(2)
        by (auto simp: comma_def hash_def)
    qed
    then have "comma \<notin> set ?o" using set_join [of "[32]" ?L] by (auto simp: comma_def)
    then have 1: "split comma ?o = [?o]" by (rule split_no_sep)
    have 2: "trim ?o = ?o" using ne hd last by (intro trim_self) (simp_all add: not_ws_hash)
    have 3: "hashPrefix ?o = ?o" using ne hd by (rule hashPrefix_fixed)
    show ?thesis using 1 2 3 ne by (simp add: formatTags_def trimAll_def)
  qed
qed

lemma startsWith_iff: "startsWith s w \<longleftrightarrow> (\<exists>b. s = w @ b)"
proof
  assume "startsWith s w"
  then have "s = w @ drop (length w) s"
    unfolding startsWith_def by (metis append_take_drop_id)
  then show "\<exists>b. s = w @ b" ..
next
  assume "\<exists>b. s = w @ b"
  then show "startsWith s w" by (auto simp: startsWith_def)
qed

lemma includes_js_iff: "includes_js s w \<longleftrightarrow> (\<exists>a b. s = a @ w @ b)"
proof (induction s)
  case Nil
  show ?case by auto
next
  case (Cons c cs)
  show ?case
  proof
    assume "includes_js (c # cs) w"
    then consider "startsWith (c # cs) w" | "includes_js cs w" by auto
    then show "\<exists>a b. c # cs = a @ w @ b"
    proof cases
      case 1
      then obtain b where "c # cs = w @ b" by (auto simp: startsWith_iff)
      then have "c # cs = [] @ w @ b" by simp
      then show ?thesis by blast
    next
      case 2
      with Cons obtain a b where "cs = a @ w @ b" by auto
      then have "c # cs = (c # a) @ w @ b" by simp
      then show ?thesis by blast
    qed
  next
    assume "\<exists>a b. c # cs = a @ w @ b"
    then obtain a b where ab: "c # cs = a @ w @ b" by auto
    show "includes_js (c # cs) w"
    proof (cases a)
      case Nil
      with ab have "startsWith (c # cs) w" by (auto simp: startsWith_iff)
      then show ?thesis by simp
    next
      case (Cons x a')
      with ab have "cs = a' @ w @ b" by simp
      with Cons.IH have "includes_js cs w" by blast
      then show ?thesis by simp
    qed
  qed
qed

lemma includes_js_append:
  "includes_js s w \<Longrightarrow> includes_js (a @ s @ b) w"
proof -
  assume "includes_js s w"
  then obtain x y where "s = x @ w @ y" by (auto simp: includes_js_iff)
  then have "a @ s @ b = (a @ x) @ w @ (y @ b)" by simp
  then show ?thesis unfolding includes_js_iff by blast
qed

lemma includes_js_appendI1: "includes_js s w \<Longrightarrow> includes_js (s @ b) w"
  using includes_js_append [of s w "[]" b] by simp

lemma includes_js_appendI2: "includes_js s w \<Longrightarrow> includes_js (a @ s) w"
  using includes_js_append [of s w a "[]"] by simp

lemma includes_js_set: "includes_js s w \<Longrightarrow> set w \<subseteq> set s"
  by (auto simp: includes_js_iff)

lemma toLowerCase_append [simp]: "toLowerCase (a @ b) = toLowerCase a @ toLowerCase b"
  by (simp add: toLowerCase_def)

lemma someIncluded_append:
  "someIncluded ws s \<Longrightarrow> someIncluded ws (a @ s @ b)"
  by (auto simp: someIncluded_def list_ex_iff intro: includes_js_append)

lemma someIncluded_appendI1: "someIncluded ws s \<Longrightarrow> someIncluded ws (s @ b)"
  using someIncluded_append [of ws s "[]" b] by simp

lemma someIncluded_appendI2: "someIncluded ws s \<Longrightarrow> someIncluded ws (a @ s)"
  using someIncluded_append [of ws s a "[]"] by simp

lemma includes_js_strip_left:
  assumes "\<forall>c\<in>set a. isWhiteSpace c" "w \<noteq> []" "\<not> isWhiteSpace (hd w)"
    and "includes_js (a @ s) w"
  shows "includes_js s w"
  using assms
proof (induction a)
  case Nil then show ?case by simp
next
  case (Cons c a)
  from Cons.prems have "\<not> startsWith (c # a @ s) w"
    by (cases w) (auto simp: startsWith_def)
  with Cons show ?case by auto
qed

lemma includes_js_strip_right:
  assumes "\<forall>c\<in>set b. isWhiteSpace c" "w \<noteq> []" "\<not> isWhiteSpace (last w)"
    and "includes_js (s @ b) w"
  shows "includes_js s w"
  using assms
proof (induction b rule: rev_induct)
  case Nil then show ?case by simp
next
  case (snoc c b)
  from snoc.prems obtain x y where xy: "s @ b @ [c] = x @ w @ y"
    by (auto simp: includes_js_iff)
  have "y \<noteq> []"
  proof
    assume "y = []"
    with xy have "last (s @ b @ [c]) = last (x @ w)" by simp
    with snoc.prems(2) have "c = last w" by simp
    with snoc.prems show False by simp
  qed
  then obtain y' c' where y: "y = y' @ [c']" by (metis rev_exhaust)
  with xy have "(s @ b) @ [c] = (x @ w @ y') @ [c']" by simp
  then have "s @ b = x @ w @ y'" by (simp only: append1_eq_conv)
  then have "includes_js (s @ b) w" unfolding includes_js_iff by blast
  with snoc show ?case by simp
qed

lemma trim_decomp_ws:
  "\<exists>a b. a @ trim s @ b = s \<and> (\<forall>c\<in>set a. isWhiteSpace c) \<and> (\<forall>c\<in>set b. isWhiteSpace c)"
proof -
  let ?a = "takeWhile isWhiteSpace s"
  let ?u = "dropWhile isWhiteSpace s"
  let ?b = "rev (takeWhile isWhiteSpace (rev ?u))"
  have 1: "?a @ ?u = s" by simp
  have "rev ?u = takeWhile isWhiteSpace (rev ?u) @ dropWhile isWhiteSpace (rev ?u)" by simp
  then have 2: "?u = trim s @ ?b"
    unfolding trim_def by (metis rev_append rev_rev_ident)
  have a: "\<forall>c\<in>set ?a. isWhiteSpace c" by (auto dest: set_takeWhileD)
  have b: "\<forall>c\<in>set ?b. isWhiteSpace c" by (auto dest: set_takeWhileD)
  from 1 2 have "?a @ trim s @ ?b = s" by metis
  with a b show ?thesis by blast
qed

lemma includes_js_trim:
  assumes "w \<noteq> []" "\<not> isWhiteSpace (hd w)" "\<not> isWhiteSpace (last w)" "includes_js s w"
  shows "includes_js (trim s) w"
proof -
  obtain a b where ab: "a @ trim s @ b = s" "\<forall>c\<in>set a. isWhiteSpace c" "\<forall>c\<in>set b. isWhiteSpace c"
    using trim_decomp_ws by blast
  have 1: "includes_js (a @ (trim s @ b)) w" unfolding ab(1) by (rule assms(4))
  have 2: "includes_js (trim s @ b) w"
    by (rule includes_js_strip_left [OF ab(2) assms(1) assms(2) 1])
  show ?thesis
    by (rule includes_js_strip_right [OF ab(3) assms(1) assms(3) 2])
qed

lemma lowerUnit_ws: "isWhiteSpace c \<Longrightarrow> lowerUnit c = [c]"
  by (auto simp: isWhiteSpace_def lowerUnit_def)

lemma toLowerCase_ws: "\<forall>c\<in>set a. isWhiteSpace c \<Longrightarrow> toLowerCase a = a"
  by (induction a) (auto simp: toLowerCase_def lowerUnit_ws)

lemma includes_js_lower_trim:
  assumes "w \<noteq> []" "\<not> isWhiteSpace (hd w)" "\<not> isWhiteSpace (last w)"
    and "includes_js (toLowerCase s) w"
  shows "includes_js (toLowerCase (trim s)) w"
proof -
  obtain a b where ab: "a @ trim s @ b = s" "\<forall>c\<in>set a. isWhiteSpace c" "\<forall>c\<in>set b. isWhiteSpace c"
    using trim_decomp_ws by blast
  have "toLowerCase (a @ trim s @ b) = a @ toLowerCase (trim s) @ b"
    using ab(2,3) by (simp add: toLowerCase_ws)
  then have "toLowerCase s = a @ toLowerCase (trim s) @ b"
    by (simp only: ab(1))
  with assms(4) have 1: "includes_js (a @ (toLowerCase (trim s) @ b)) w"
    by simp
  have 2: "includes_js (toLowerCase (trim s) @ b) w"
    by (rule includes_js_strip_left [OF ab(2) assms(1) assms(2) 1])
  show ?thesis
    by (rule includes_js_strip_right [OF ab(3) assms(1) assms(3) 2])
qed

lemma someIncluded_trim:
  assumes "list_all solid ws" "someIncluded ws s"
  shows "someIncluded ws (trim s)"
proof -
  from assms(2) obtain w where w: "w \<in> set ws" "includes_js (toLowerCase s) w"
    by (auto simp: someIncluded_def list_ex_iff)
  with assms(1) have "w \<noteq> []" "\<not> isWhiteSpace (hd w)" "\<not> isWhiteSpace (last w)"
    by (auto simp: list_all_iff solid_def)
  then have "includes_js (toLowerCase (trim s)) w"
    using w(2) by (rule includes_js_lower_trim)
  with w(1) show ?thesis by (auto simp: someIncluded_def list_ex_iff)
qed

lemma solid_lists:
  "list_all solid ig_emotional" "list_all solid ig_personalization"
  "list_all solid ig_benefits" "list_all solid ig_cta"
  by (simp_all add: solid_def ig_emotional_def ig_personalization_def ig_benefits_def ig_cta_def
      asc_def isWhiteSpace_def)

lemma length_trim_le: "length (trim s) \<le> length s"
proof -
  obtain a b where ab: "s = a @ trim s @ b" using trim_decomp by blast
  have "length (trim s) \<le> length (a @ trim s @ b)" by simp
  with ab show ?thesis by metis
qed


lemma includes_js_self [simp]: "includes_js w w"
  unfolding includes_js_iff by (metis append_Nil append_Nil2)

lemma not_someIncluded_Nil: "list_all solid ws \<Longrightarrow> \<not> someIncluded ws []"
  by (auto simp: someIncluded_def list_ex_iff list_all_iff solid_def toLowerCase_def)

lemma solid_emoji: "solid sparkles" "solid glowing_star"
  by (simp_all add: solid_def sparkles_def glowing_star_def isWhiteSpace_def)

lemma includes_js_trimD: "includes_js (trim s) w \<Longrightarrow> includes_js s w"
proof -
  assume a: "includes_js (trim s) w"
  obtain x y where "s = x @ trim s @ y" using trim_decomp by blast
  then show ?thesis using includes_js_append [OF a, of x y] by metis
qed

lemma validateDescription_fixed:
  assumes "v \<noteq> []" "trim v = v" "length v \<le> ig_maxLength"
    and "someIncluded ig_emotional v" "someIncluded ig_personalization v"
    and "someIncluded ig_benefits v" "someIncluded ig_cta v"
    and "includes_js v sparkles \<or> includes_js v glowing_star"
  shows "validateDescription v = Inr v"
  using assms by (auto simp: validateDescription_def Let_def)

lemma validateDescription_idem:
  assumes len: "length d \<le> ig_maxLength"
    and e: "someIncluded ig_emotional d" and p: "someIncluded ig_personalization d"
    and b: "someIncluded ig_benefits d" and c: "someIncluded ig_cta d"
    and m: "includes_js d sparkles \<or> includes_js d glowing_star \<or> length d + 2 \<le> ig_maxLength"
  shows "\<exists>r. validateDescription d = Inr r \<and> validateDescription r = Inr r"
proof -
  let ?v = "trim d"
  have dne: "d \<noteq> []" using c not_someIncluded_Nil [OF solid_lists(4)] by auto
  have e': "someIncluded ig_emotional ?v" using e by (intro someIncluded_trim solid_lists)
  have p': "someIncluded ig_personalization ?v" using p by (intro someIncluded_trim solid_lists)
  have b': "someIncluded ig_benefits ?v" using b by (intro someIncluded_trim solid_lists)
  have c': "someIncluded ig_cta ?v" using c by (intro someIncluded_trim solid_lists)
  have vne: "?v \<noteq> []" using c' not_someIncluded_Nil [OF solid_lists(4)] by auto
  have len': "length ?v \<le> ig_maxLength" using len length_trim_le [of d] by simp
  show ?thesis
  proof (cases "includes_js ?v sparkles \<or> includes_js ?v glowing_star")
    case True
    with dne e' p' b' c' len' have 1: "validateDescription d = Inr ?v"
      by (auto simp: validateDescription_def Let_def)
    have "validateDescription ?v = Inr ?v"
      using vne len' e' p' b' c' True by (intro validateDescription_fixed) simp_all
    with 1 show ?thesis by simp
  next
    case False
    then have "\<not> includes_js d sparkles" "\<not> includes_js d glowing_star"
      using solid_emoji includes_js_trim [of sparkles d] includes_js_trim [of glowing_star d]
      by (auto simp: solid_def)
    with m have short: "length d + 2 \<le> ig_maxLength" by simp
    let ?r = "sparkles @ [32] @ ?v"
    from False dne e' p' b' c' len' have 1: "validateDescription d = Inr ?r"
      by (auto simp: validateDescription_def Let_def)
    have hdl: "\<not> isWhiteSpace (hd ?r)" "\<not> isWhiteSpace (last ?r)"
      using vne trim_ends(2) [OF vne] by (simp_all add: sparkles_def isWhiteSpace_def)
    have "validateDescription ?r = Inr ?r"
    proof (rule validateDescription_fixed)
      show "?r \<noteq> []" by (simp add: sparkles_def)
      show "trim ?r = ?r" using hdl by (intro trim_self) (simp_all add: sparkles_def)
      show "length ?r \<le> ig_maxLength" using short length_trim_le [of d]
        by (simp add: sparkles_def)
      show "someIncluded ig_emotional ?r" using e' someIncluded_append [of _ ?v "sparkles @ [32]" "[]"] by simp
      show "someIncluded ig_personalization ?r" using p' someIncluded_append [of _ ?v "sparkles @ [32]" "[]"] by simp
      show "someIncluded ig_benefits ?r" using b' someIncluded_append [of _ ?v "sparkles @ [32]" "[]"] by simp
      show "someIncluded ig_cta ?r" using c' someIncluded_append [of _ ?v "sparkles @ [32]" "[]"] by simp
      show "includes_js ?r sparkles \<or> includes_js ?r glowing_star"
        using includes_js_appendI1 [of sparkles sparkles] by simp
    qed
    with 1 show ?thesis by blast
  qed
qed

lemma trim_replicate_a: "trim (replicate n 97) = replicate n 97"
  by (simp add: trim_def isWhiteSpace_def)

lemma validateDescription_shape:
  assumes "d \<noteq> []"
  shows "\<exists>pre. validateDescription d
           = Inr (pre @ ig_truncated d @ ig_suffixes (ig_truncated d))"
proof -
  let ?v = "ig_truncated d"
  let ?b = "?v @ ig_suffixes ?v"
  have "validateDescription d
      = Inr ((if \<not> includes_js ?b sparkles \<and> \<not> includes_js ?b glowing_star
              then sparkles @ [32] else []) @ ?b)"
    using assms
    by (simp add: validateDescription_def Let_def ig_truncated_def [symmetric] ig_suffixes_def)
  then show ?thesis by blast
qed

lemma cta_in_suffix: "someIncluded ig_cta cta_suffix"
  by (simp add: someIncluded_def ig_cta_def cta_suffix_def palette_def asc_def toLowerCase_def
      lowerUnit_def startsWith_def)

lemma cta_on_return:
  assumes "d \<noteq> []"
  shows "\<exists>r. validateDescription d = Inr r \<and> someIncluded ig_cta r"
proof -
  let ?v = "ig_truncated d"
  obtain pre where r: "validateDescription d = Inr (pre @ ?v @ ig_suffixes ?v)"
    using validateDescription_shape [OF assms] by blast
  have "someIncluded ig_cta (pre @ ?v @ ig_suffixes ?v)"
  proof (cases "someIncluded ig_cta ?v")
    case True
    then show ?thesis by (rule someIncluded_append)
  next
    case False
    then obtain m where "ig_suffixes ?v = m @ cta_suffix"
      by (simp add: ig_suffixes_def)
    then have "pre @ ?v @ ig_suffixes ?v = (pre @ ?v @ m) @ cta_suffix @ []" by simp
    then show ?thesis using someIncluded_append [OF cta_in_suffix, of "pre @ ?v @ m" "[]"]
      by (simp only:)
  qed
  with r show ?thesis by blast
qed

lemma overlong_after_truncation:
  assumes "d \<noteq> []" "length (trim d) > ig_maxLength"
    and "\<not> someIncluded ig_cta (substring0 (trim d) (ig_maxLength - 3) @ ellipsis)"
  shows "\<exists>r. validateDescription d = Inr r \<and> length r > ig_maxLength"
proof -
  let ?v = "ig_truncated d"
  obtain pre where r: "validateDescription d = Inr (pre @ ?v @ ig_suffixes ?v)"
    using validateDescription_shape [OF assms(1)] by blast
  from assms(2) have v: "?v = substring0 (trim d) (ig_maxLength - 3) @ ellipsis"
    by (simp add: ig_truncated_def)
  from assms(2) have "length ?v = ig_maxLength"
    by (simp add: v substring0_def ig_maxLength_def)
  moreover from assms(3) v have "length (ig_suffixes ?v) > 0"
    by (simp add: ig_suffixes_def cta_suffix_def)
  ultimately have "length (pre @ ?v @ ig_suffixes ?v) > ig_maxLength" by simp
  with r show ?thesis by blast
qed

lemma set_toLowerCase: "set (toLowerCase s) = (\<Union>c\<in>set s. set (lowerUnit c))"
  by (simp add: toLowerCase_def)

lemma toLowerCase_plain: "set s \<subseteq> {97, 46} \<Longrightarrow> set (toLowerCase s) \<subseteq> {97, 46}"
  by (auto simp: set_toLowerCase lowerUnit_def)

lemma not_someIncluded_plain:
  assumes "set s \<subseteq> {97, 46}" "list_all (\<lambda>w. \<not> set w \<subseteq> {97, 46}) ws"
  shows "\<not> someIncluded ws s"
proof
  assume "someIncluded ws s"
  then obtain w where w: "w \<in> set ws" "includes_js (toLowerCase s) w"
    by (auto simp: someIncluded_def list_ex_iff)
  from w(2) have "set w \<subseteq> set (toLowerCase s)" by (rule includes_js_set)
  with toLowerCase_plain [OF assms(1)] have "set w \<subseteq> {97, 46}" by blast
  with assms(2) w(1) show False by (auto simp: list_all_iff)
qed

lemma keywords_not_plain:
  "list_all (\<lambda>w. \<not> set w \<subseteq> {97, 46}) ig_emotional"
  "list_all (\<lambda>w. \<not> set w \<subseteq> {97, 46}) ig_personalization"
  "list_all (\<lambda>w. \<not> set w \<subseteq> {97, 46}) ig_benefits"
  "list_all (\<lambda>w. \<not> set w \<subseteq> {97, 46}) ig_cta"
  by (simp_all add: ig_emotional_def ig_personalization_def ig_benefits_def ig_cta_def asc_def)

lemma plain_a: "set (replicate n 97) \<subseteq> {97, 46}" "set (replicate n 97 @ ellipsis) \<subseteq> {97, 46}"
  by (auto simp: ellipsis_def asc_def)

lemma hashtags_formatContent:
  "hashtags (formatContent (Some x) p) = (if p \<noteq> Pinterest then formatTags (tags x) else tags x)"
  by (cases p) (simp_all add: formatContent_def Let_def)

lemma description_formatContent:
  "description_s (formatContent (Some x) p)
     = (if \<not> includes_js (description x) sparkles_lit \<and> \<not> includes_js (description x) star_lit
        then description x @ [10, 10] @ cta p else description x)"
  by (simp add: formatContent_def Let_def)

lemma SocialContent_eqI:
  "description_s a = description_s b \<Longrightarrow> hashtags a = hashtags b \<Longrightarrow> a = (b::SocialContent)"
  by simp

lemma validateDescription_prefixes:
  assumes "i \<noteq> []" "trim i = i" "length i \<le> ig_maxLength"
    and "someIncluded ig_emotional i" "someIncluded ig_personalization i"
    and "someIncluded ig_benefits i" "someIncluded ig_cta i"
    and "\<not> includes_js i sparkles" "\<not> includes_js i glowing_star"
  shows "validateDescription i = Inr (sparkles @ [32] @ i)"
  using assms by (simp add: validateDescription_def Let_def)

lemma idem_input_words:
  "someIncluded ig_emotional (asc ''special your quality shop now '')"
  "someIncluded ig_personalization (asc ''special your quality shop now '')"
  "someIncluded ig_benefits (asc ''special your quality shop now '')"
  "someIncluded ig_cta (asc ''special your quality shop now '')"
  by (simp_all add: someIncluded_def ig_emotional_def ig_personalization_def ig_benefits_def
      ig_cta_def asc_def toLowerCase_def lowerUnit_def startsWith_def)

lemma idem_input_facts:
  "length idem_input = 150" "trim idem_input = idem_input" "idem_input \<noteq> []"
  "someIncluded ig_emotional idem_input" "someIncluded ig_personalization idem_input"
  "someIncluded ig_benefits idem_input" "someIncluded ig_cta idem_input"
  "\<not> includes_js idem_input sparkles" "\<not> includes_js idem_input glowing_star"
proof -
  show "length idem_input = 150" by (simp add: idem_input_def)
  show "trim idem_input = idem_input"
    by (rule trim_self) (simp_all add: idem_input_def asc_def isWhiteSpace_def)
  show "idem_input \<noteq> []" by (simp add: idem_input_def asc_def)
  show "someIncluded ig_emotional idem_input" "someIncluded ig_personalization idem_input"
    "someIncluded ig_benefits idem_input" "someIncluded ig_cta idem_input"
    unfolding idem_input_def by (rule someIncluded_appendI1, rule idem_input_words)+
  show "\<not> includes_js idem_input sparkles"
    using includes_js_set [of idem_input sparkles]
    by (auto simp: idem_input_def sparkles_def asc_def)
  show "\<not> includes_js idem_input glowing_star"
    using includes_js_set [of idem_input glowing_star]
    by (auto simp: idem_input_def glowing_star_def asc_def)
qed

lemma hashPrefix_starts: "startsWith (hashPrefix t) [hash]"
  by (cases t) (auto simp: hashPrefix_def startsWith_def)

lemma validateHashtags_eq:
  "validateHashtags ts =
     (if length (map hashPrefix (trimAll ts)) < ig_hashtags_min
      then Inl (asc ''Error: Minimum 10 hashtags required'')
      else if missingCategories (map toLowerCase (map hashPrefix (trimAll ts))) \<noteq> []
      then Inl (asc ''Error: Missing hashtags for categories: ''
             @ join (asc '', '') (missingCategories (map toLowerCase (map hashPrefix (trimAll ts)))))
      else Inr (take ig_hashtags_max (map hashPrefix (trimAll ts))))"
  by (simp add: validateHashtags_def Let_def)

lemma sixteen_cleaned:
  "map hashPrefix (trimAll sixteen_tags) = map asc [''#easter'', ''#gift'', ''#custom'',
     ''#handmade'', ''#mug'', ''#mom'', ''#spring'', ''#decor'', ''#unique'', ''#premium'',
     ''#love'', ''#home'', ''#art'', ''#cute'', ''#joy'', ''#fun'']"
  by (simp add: sixteen_tags_def trimAll_def asc_def trim_def isWhiteSpace_def hashPrefix_def
      startsWith_def hash_def)

lemma sixteen_categories:
  "missingCategories (map toLowerCase (map hashPrefix (trimAll sixteen_tags))) = []"
  unfolding sixteen_cleaned
  by (simp add: missingCategories_def ig_categories_def asc_def toLowerCase_def lowerUnit_def
      startsWith_def)

lemma validateParsed_Some:
  assumes "trimmedField parsed (asc ''title'') = Some t"
    and "trimmedField parsed (asc ''description'') = Some d"
    and "t \<noteq> []" and "d \<noteq> []"
  shows "validateParsed parsed p =
    Some (normalizeFields p \<lparr>title = t, description = d, tags = tagsText parsed\<rparr>)"
  using assms by (simp add: validateParsed_def)



lemma tags_normalizeFields:
  "tags (normalizeFields p f) = (if tags f = [] then tags (DEFAULT_CONTENT p) else tags f)"
  by (simp add: normalizeFields_def Let_def)


lemma not_ws_braces: "\<not> isWhiteSpace lbrace" "\<not> isWhiteSpace rbrace"
  by (simp_all add: isWhiteSpace_def lbrace_def rbrace_def)

lemma trim_braced: "trim (lbrace # m @ [rbrace]) = lbrace # m @ [rbrace]"
  by (rule trim_self) (simp_all add: not_ws_braces)


lemma braced_ends:
  "startsWith (lbrace # m @ [rbrace]) [lbrace]" "endsWith (lbrace # m @ [rbrace]) [rbrace]"
  by (simp_all add: startsWith_def endsWith_def)


lemma validateJSON_accepts:
  assumes "startsWith (trim input) [lbrace]" "endsWith (trim input) [rbrace]"
    and "parse (trim input) = Inr (JObject kvs)" "missingFieldsOf kvs = []"
  shows "validateJSON parse input = Inr (JObject kvs)"
  using assms by (simp add: validateJSON_def Let_def)

lemma validateJSON_missing:
  assumes "startsWith (trim input) [lbrace]" "endsWith (trim input) [rbrace]"
    and "parse (trim input) = Inr (JObject kvs)" "missingFieldsOf kvs \<noteq> []"
  shows "validateJSON parse input
    = Inl (asc ''Content generation failed due to invalid JSON structure: ''
           @ asc ''Missing required fields: '' @ join (asc '', '') (missingFieldsOf kvs))"
  using assms by (simp add: validateJSON_def Let_def)




lemma startsWith_simps:
  "startsWith s [] = True"
  "startsWith [] (w # ws) = False"
  "startsWith (c # cs) (w # ws) = (c = w \<and> startsWith cs ws)"
  by (auto simp: startsWith_def)

lemma includes_js_at: "take (length w) (drop k s) = w \<Longrightarrow> includes_js s w"
proof -
  assume a: "take (length w) (drop k s) = w"
  have "drop k s = w @ drop (length w) (drop k s)"
    using a by (metis append_take_drop_id)
  then have "s = take k s @ w @ drop (length w) (drop k s)"
    by (metis append_take_drop_id)
  then show ?thesis unfolding includes_js_iff by blast
qed

lemma includes_js_single: "includes_js s [c] \<longleftrightarrow> c \<in> set s"
  by (induction s) (auto simp: startsWith_def)

lemma case_tags_split:
  "trimAll (split comma case_tags) = map asc [''mug'', ''handmade'', ''mothers day'', ''custom'',
     ''special'', ''mom'', ''gift idea'', ''maternal'', ''Gift'', ''gift'']"
  by (simp add: case_tags_def trimAll_def asc_def comma_def trim_def isWhiteSpace_def)

lemma case_tags_ok: "tagListIssues (trimAll (split comma case_tags)) = []"
  unfolding case_tags_split
  by (simp add: tagListIssues_def when_failed_def strict_tags_min_def strict_tags_max_def
      isValidTag_def tag_minLength_def tag_maxLength_def isWordUnit_def isWhiteSpace_def
      testAny_def foldUnit_def startsWith_simps asc_def hasRequiredTagCategories_def
      categorizeTag_def toLowerCase_def lowerUnit_def requiredCategories_def)

lemma case_title_ok: "strictTitleIssues (Some (JString case_title)) = []"
  by (simp add: strictTitleIssues_def when_failed_def strict_title_minLength_def
      strict_title_maxLength_def noJSONSyntax_def containsWords_def title_requiredWords_def
      title_emotionalWords_def title_bannedWords_def toLowerCase_def lowerUnit_def
      startsWith_simps asc_def lbrace_def rbrace_def case_title_def)

lemma case_description_lower:
  "toLowerCase case_description = asc ''designed for mom, this special mug is perfect for morning coffee. personalize it with your name and celebrate her love. a thoughtful gift she will treasure. order now!''"
  "map foldUnit case_description = asc ''designed for mom, this special mug is perfect for morning coffee. personalize it with your name and celebrate her love. a thoughtful gift she will treasure. order now!''"
  by (simp_all add: case_description_def toLowerCase_def lowerUnit_def foldUnit_def asc_def)

lemma case_description_words:
  "includes_js (asc ''designed for mom, this special mug is perfect for morning coffee. personalize it with your name and celebrate her love. a thoughtful gift she will treasure. order now!'') (asc ''designed'')"
  "includes_js (asc ''designed for mom, this special mug is perfect for morning coffee. personalize it with your name and celebrate her love. a thoughtful gift she will treasure. order now!'') (asc ''perfect for'')"
  "includes_js (asc ''designed for mom, this special mug is perfect for morning coffee. personalize it with your name and celebrate her love. a thoughtful gift she will treasure. order now!'') (asc ''personalize'')"
  "includes_js (asc ''designed for mom, this special mug is perfect for morning coffee. personalize it with your name and celebrate her love. a thoughtful gift she will treasure. order now!'') (asc ''special'')"
  "includes_js (asc ''designed for mom, this special mug is perfect for morning coffee. personalize it with your name and celebrate her love. a thoughtful gift she will treasure. order now!'') (asc ''coffee'')"
  "includes_js (asc ''designed for mom, this special mug is perfect for morning coffee. personalize it with your name and celebrate her love. a thoughtful gift she will treasure. order now!'') (asc ''thoughtful gift'')"
  "includes_js (asc ''designed for mom, this special mug is perfect for morning coffee. personalize it with your name and celebrate her love. a thoughtful gift she will treasure. order now!'') (asc ''mom'')"
  "includes_js (asc ''designed for mom, this special mug is perfect for morning coffee. personalize it with your name and celebrate her love. a thoughtful gift she will treasure. order now!'') (asc ''order'')"
  "includes_js (asc ''designed for mom, this special mug is perfect for morning coffee. personalize it with your name and celebrate her love. a thoughtful gift she will treasure. order now!'') (asc ''order now'')"
  "includes_js (asc ''designed for mom, this special mug is perfect for morning coffee. personalize it with your name and celebrate her love. a thoughtful gift she will treasure. order now!'') (asc ''celebrate'')"
  "includes_js (asc ''designed for mom, this special mug is perfect for morning coffee. personalize it with your name and celebrate her love. a thoughtful gift she will treasure. order now!'') (asc ''love'')"
proof -
  show "includes_js (asc ''designed for mom, this special mug is perfect for morning coffee. personalize it with your name and celebrate her love. a thoughtful gift she will treasure. order now!'') (asc ''designed'')"
    by (rule includes_js_at [where k = 0]) (simp add: asc_def)
  show "includes_js (asc ''designed for mom, this special mug is perfect for morning coffee. personalize it with your name and celebrate her love. a thoughtful gift she will treasure. order now!'') (asc ''perfect for'')"
    by (rule includes_js_at [where k = 38]) (simp add: asc_def)
  show "includes_js (asc ''designed for mom, this special mug is perfect for morning coffee. personalize it with your name and celebrate her love. a thoughtful gift she will treasure. order now!'') (asc ''personalize'')"
    by (rule includes_js_at [where k = 66]) (simp add: asc_def)
  show "includes_js (asc ''designed for mom, this special mug is perfect for morning coffee. personalize it with your name and celebrate her love. a thoughtful gift she will treasure. order now!'') (asc ''special'')"
    by (rule includes_js_at [where k = 23]) (simp add: asc_def)
  show "includes_js (asc ''designed for mom, this special mug is perfect for morning coffee. personalize it with your name and celebrate her love. a thoughtful gift she will treasure. order now!'') (asc ''coffee'')"
    by (rule includes_js_at [where k = 58]) (simp add: asc_def)
  show "includes_js (asc ''designed for mom, this special mug is perfect for morning coffee. personalize it with your name and celebrate her love. a thoughtful gift she will treasure. order now!'') (asc ''thoughtful gift'')"
    by (rule includes_js_at [where k = 122]) (simp add: asc_def)
  show "includes_js (asc ''designed for mom, this special mug is perfect for morning coffee. personalize it with your name and celebrate her love. a thoughtful gift she will treasure. order now!'') (asc ''mom'')"
    by (rule includes_js_at [where k = 13]) (simp add: asc_def)
  show "includes_js (asc ''designed for mom, this special mug is perfect for morning coffee. personalize it with your name and celebrate her love. a thoughtful gift she will treasure. order now!'') (asc ''order'')"
    by (rule includes_js_at [where k = 157]) (simp add: asc_def)
  show "includes_js (asc ''designed for mom, this special mug is perfect for morning coffee. personalize it with your name and celebrate her love. a thoughtful gift she will treasure. order now!'') (asc ''order now'')"
    by (rule includes_js_at [where k = 157]) (simp add: asc_def)
  show "includes_js (asc ''designed for mom, this special mug is perfect for morning coffee. personalize it with your name and celebrate her love. a thoughtful gift she will treasure. order now!'') (asc ''celebrate'')"
    by (rule includes_js_at [where k = 100]) (simp add: asc_def)
  show "includes_js (asc ''designed for mom, this special mug is perfect for morning coffee. personalize it with your name and celebrate her love. a thoughtful gift she will treasure. order now!'') (asc ''love'')"
    by (rule includes_js_at [where k = 114]) (simp add: asc_def)
qed

lemma case_description_ok: "strictDescriptionIssues (Some (JString case_description)) = []"
proof -
  have l: "length case_description = 167" by (simp add: case_description_def)
  have b: "noJSONSyntax case_description"
    by (simp add: noJSONSyntax_def includes_js_single case_description_def asc_def lbrace_def
        rbrace_def)
  have v: "hasValidDescription case_description"
    using case_description_words
    by (simp add: hasValidDescription_def testAny_def case_description_lower)
  have w: "toLowerCase (asc ''perfect for'') = asc ''perfect for''"
    "toLowerCase (asc ''personalize'') = asc ''personalize''"
    "toLowerCase (asc ''order now'') = asc ''order now''"
    "toLowerCase (asc ''celebrate'') = asc ''celebrate''"
    "toLowerCase (asc ''special'') = asc ''special''"
    "toLowerCase (asc ''mom'') = asc ''mom''"
    "toLowerCase (asc ''love'') = asc ''love''"
    by (simp_all add: toLowerCase_def lowerUnit_def asc_def)
  have p: "hasRequiredPhrases case_description description_requiredPhrases"
    using case_description_words
    by (simp add: hasRequiredPhrases_def description_requiredPhrases_def
        case_description_lower w)
  show ?thesis
    using l b v p
    by (simp add: strictDescriptionIssues_def when_failed_def description_minLength_def
        description_maxLength_def)
qed


lemma unique_iff_distinct: "(length (remdups ts) = length ts) = distinct ts"
  by (simp add: length_remdups_eq remdups_id_iff_distinct)

lemma unique_message_differs:
  "asc ''Tags must be unique'' \<noteq> asc ''Must have between 10 and 12 tags''"
  "asc ''Tags must be unique'' \<noteq> asc ''Tags must be between 3-30 characters and contain only letters, numbers, spaces, and hyphens''"
  "asc ''Tags must be unique'' \<noteq> asc ''Tags should not be full sentences''"
  "asc ''Tags must be unique'' \<noteq> tagCategoriesMessage"
  by (simp_all add: asc_def tagCategoriesMessage_def)

lemma unique_reported_iff:
  "asc ''Tags must be unique'' \<in> set (tagListIssues ts) \<longleftrightarrow> \<not> distinct ts"
  using unique_message_differs
  by (simp add: tagListIssues_def when_failed_def unique_iff_distinct)

lemma StrictContentSchema_parse_Inl:
  assumes "strictTagsIssues (map_of kvs (asc ''tags'')) \<noteq> []"
  shows "StrictContentSchema_parse (JObject kvs)
    = Inl (strictTitleIssues (map_of kvs (asc ''title''))
        @ strictDescriptionIssues (map_of kvs (asc ''description''))
        @ strictTagsIssues (map_of kvs (asc ''tags'')))"
  using assms by (simp add: StrictContentSchema_parse_def Let_def)

lemma StrictContentSchema_parse_Inr:
  assumes "map_of kvs (asc ''title'') = Some (JString t)"
    and "map_of kvs (asc ''description'') = Some (JString d)"
    and "map_of kvs (asc ''tags'') = Some (JString g)"
    and "strictTitleIssues (Some (JString t)) = []"
    and "strictDescriptionIssues (Some (JString d)) = []"
    and "tagListIssues (trimAll (split comma g)) = []"
  shows "StrictContentSchema_parse (JObject kvs)
    = Inr \<lparr>title_v = t, description_v = d, tags_v = trimAll (split comma g)\<rparr>"
  using assms by (simp add: StrictContentSchema_parse_def Let_def strictTagsIssues_def)

lemma validateAndTransform_missing:
  assumes "startsWith (trim input) [lbrace]" "endsWith (trim input) [rbrace]"
    and "parse (trim input) = Inr (JObject kvs)" "missingFieldsOf kvs \<noteq> []"
  shows "validateAndTransform parse input
    = Inl \<lparr>message = asc ''Content generation failed due to invalid JSON structure: ''
             @ asc ''Missing required fields: '' @ join (asc '', '') (missingFieldsOf kvs),
           code = INVALID_JSON, validationErrors = [], missingFields = [],
           attemptedModel = []\<rparr>"
  by (simp add: validateAndTransform_def newContentError_def
      validateJSON_missing [where parse = parse and input = input, OF assms])

lemma no_tags_text_braced:
  \<open>no_tags_text = lbrace # asc ''"title":"Mug","description":"A mug."'' @ [rbrace]\<close>
  by (simp add: no_tags_text_def asc_def lbrace_def rbrace_def)

lemma no_tags_facts:
  "startsWith (trim no_tags_text) [lbrace]" "endsWith (trim no_tags_text) [rbrace]"
  "example_parse (trim no_tags_text)
     = Inr (JObject [(asc ''title'', JString (asc ''Mug'')),
                     (asc ''description'', JString (asc ''A mug.''))])"
  "missingFieldsOf [(asc ''title'', JString (asc ''Mug'')),
     (asc ''description'', JString (asc ''A mug.''))] = [asc ''tags'']"
proof -
  have t: "trim no_tags_text = no_tags_text"
    unfolding no_tags_text_braced by (rule trim_braced)
  show "startsWith (trim no_tags_text) [lbrace]" "endsWith (trim no_tags_text) [rbrace]"
    unfolding t by (simp_all add: no_tags_text_braced braced_ends)
  have "no_tags_text \<noteq> object_text"
    by (simp add: no_tags_text_def object_text_def asc_def)
  then show "example_parse (trim no_tags_text)
     = Inr (JObject [(asc ''title'', JString (asc ''Mug'')),
                     (asc ''description'', JString (asc ''A mug.''))])"
    by (simp add: t example_parse_def no_tags_object_def)
  show "missingFieldsOf [(asc ''title'', JString (asc ''Mug'')),
     (asc ''description'', JString (asc ''A mug.''))] = [asc ''tags'']"
    by (simp add: missingFieldsOf_def requiredFields_def asc_def)
qed

lemma when_failed_set: "m \<in> set (when_failed ok m') \<longleftrightarrow> \<not> ok \<and> m = m'"
  by (simp add: when_failed_def)

lemma when_failed_Nil: "when_failed ok m = [] \<longleftrightarrow> ok"
  by (simp add: when_failed_def)

lemma titleIssues_string:
  "titleIssues (Some (JString t)) =
     when_failed (title_minLength \<le> length t) (asc ''Title is required'')
     @ when_failed (length t \<le> title_maxLength) (asc ''Title must be 50 characters or less'')
     @ when_failed (noJSONSyntax t) (asc ''Title cannot contain JSON syntax'')"
  by (simp add: titleIssues_def)

lemma descriptionIssues_string:
  "descriptionIssues (Some (JString d)) =
     when_failed (description_minLength \<le> length d)
       (asc ''Description must be at least 150 characters'')
     @ when_failed (length d \<le> description_maxLength)
       (asc ''Description must be 200 characters or less'')
     @ when_failed (noJSONSyntax d) (asc ''Description cannot contain JSON syntax'')"
  by (simp add: descriptionIssues_def)

lemma tagsIssues_coerced:
  "coerceTags v = Some ts \<Longrightarrow> tagsIssues v =
     when_failed (tags_min \<le> length ts \<and> length ts \<le> tags_max)
       (asc ''Must have between 4 and 12 tags'')
     @ when_failed (\<not> list_ex (\<lambda>tag. trim tag = []) ts) (asc ''Tags cannot be empty'')"
  by (simp add: tagsIssues_def list_all_iff list_ex_iff)

lemma ContentSchema_parse_issues:
  assumes "map_of kvs (asc ''title'') = Some (JString t)"
    and "map_of kvs (asc ''description'') = Some (JString d)"
    and "coerceTags (map_of kvs (asc ''tags'')) = Some ts"
  shows "ContentSchema_parse (JObject kvs) = Inl issues \<longleftrightarrow>
    issues \<noteq> [] \<and> issues = titleIssues (Some (JString t)) @ descriptionIssues (Some (JString d))
      @ tagsIssues (map_of kvs (asc ''tags''))"
  using assms by (auto simp: ContentSchema_parse_def Let_def)

lemma validateOutput_object:
  assumes "missingFieldsOf kvs = []"
  shows "validateOutput parse (JObject kvs) =
    (if \<not> titleOK (map_of kvs (asc ''title''))
     then Inl (asc ''Title must be a non-empty string with maximum 50 characters'')
     else if \<not> descriptionOK (map_of kvs (asc ''description''))
     then Inl (asc ''Description must be between 150 and 200 characters'')
     else if \<not> tagsOK (map_of kvs (asc ''tags''))
     then Inl (asc ''Tags must be an array of 10-12 strings'')
     else Inr ())"
  using assms by (simp add: validateOutput_def Let_def)

lemma scenario_text_braced:
  \<open>scenario_text = lbrace # asc ''"title":"x","description":"short","tags":"a,b"'' @ [rbrace]\<close>
  by (simp add: scenario_text_def asc_def lbrace_def rbrace_def)

lemma startsWith_sep:
  assumes "x \<notin> set w"
  shows "startsWith (a @ x # b) w \<longleftrightarrow> startsWith a w"
proof
  assume "startsWith (a @ x # b) w"
  then obtain r where r: "a @ x # b = w @ r" by (auto simp: startsWith_iff)
  then obtain us where "(a = w @ us \<and> us @ x # b = r) \<or> (a @ us = w \<and> x # b = us @ r)"
    by (auto simp: append_eq_append_conv2)
  then show "startsWith a w"
  proof
    assume "a = w @ us \<and> us @ x # b = r"
    then show ?thesis by (auto simp: startsWith_iff)
  next
    assume u: "a @ us = w \<and> x # b = us @ r"
    show ?thesis
    proof (cases us)
      case Nil
      with u show ?thesis by (auto simp: startsWith_iff)
    next
      case (Cons y ys)
      with u have "x \<in> set w" by auto
      with assms show ?thesis by simp
    qed
  qed
next
  assume "startsWith a w"
  then obtain r where "a = w @ r" by (auto simp: startsWith_iff)
  then have "a @ x # b = w @ (r @ x # b)" by simp
  then show "startsWith (a @ x # b) w" unfolding startsWith_iff by blast
qed

lemma includes_js_sep:
  assumes "x \<notin> set w" "w \<noteq> []"
  shows "includes_js (a @ x # b) w \<longleftrightarrow> includes_js a w \<or> includes_js b w"
proof (induction a)
  case Nil
  from assms have "\<not> startsWith (x # b) w" by (cases w) (auto simp: startsWith_def)
  with assms(2) show ?case by simp
next
  case (Cons c a)
  have "startsWith ((c # a) @ x # b) w \<longleftrightarrow> startsWith (c # a) w"
    by (rule startsWith_sep [OF assms(1)])
  with Cons show ?case by auto
qed

lemma cta_emoji:
  "includes_js (cta Instagram) sparkles_lit" "includes_js (cta Facebook) star_lit"
  "\<not> includes_js (cta Pinterest) sparkles_lit" "\<not> includes_js (cta Pinterest) star_lit"
proof -
  show "includes_js (cta Instagram) sparkles_lit" by (simp add: includes_js_appendI1)
  show "includes_js (cta Facebook) star_lit" by (simp add: includes_js_appendI1)
  show "\<not> includes_js (cta Pinterest) sparkles_lit"
    using includes_js_set [of "cta Pinterest" sparkles_lit]
    by (auto simp: sparkles_lit_def magnifier_lit_def asc_def)
  show "\<not> includes_js (cta Pinterest) star_lit"
    using includes_js_set [of "cta Pinterest" star_lit]
    by (auto simp: star_lit_def magnifier_lit_def asc_def)
qed

lemma includes_js_after_cta:
  assumes "w = sparkles_lit \<or> w = star_lit"
  shows "includes_js (d @ [10, 10] @ c) w \<longleftrightarrow> includes_js d w \<or> includes_js c w"
proof -
  from assms have w: "10 \<notin> set w" "w \<noteq> []"
    by (auto simp: sparkles_lit_def star_lit_def)
  have "includes_js (d @ 10 # ([] @ 10 # c)) w
      \<longleftrightarrow> includes_js d w \<or> includes_js ([] @ 10 # c) w"
    by (rule includes_js_sep [OF w])
  also have "includes_js ([] @ 10 # c) w \<longleftrightarrow> includes_js [] w \<or> includes_js c w"
    by (rule includes_js_sep [OF w])
  finally show ?thesis using w(2) by simp
qed

lemma description_twice:
  "description_s (formatContent (Some (x\<lparr>description := description_s (formatContent (Some x) p),
             tags := hashtags (formatContent (Some x) p)\<rparr>)) p)
     = (if includes_js (description x) sparkles_lit \<or> includes_js (description x) star_lit
        then description x
        else if p = Pinterest
        then description x @ [10, 10] @ cta Pinterest @ [10, 10] @ cta Pinterest
        else description x @ [10, 10] @ cta p)"
proof (cases "includes_js (description x) sparkles_lit \<or> includes_js (description x) star_lit")
  case True
  then show ?thesis by (auto simp: description_formatContent)
next
  case False
  then have 1: "description_s (formatContent (Some x) p) = description x @ [10, 10] @ cta p"
    by (simp add: description_formatContent)
  have s: "includes_js (description x @ [10, 10] @ cta p) sparkles_lit
      \<longleftrightarrow> includes_js (cta p) sparkles_lit"
    using False includes_js_after_cta [of sparkles_lit "description x" "cta p"] by simp
  have t: "includes_js (description x @ [10, 10] @ cta p) star_lit
      \<longleftrightarrow> includes_js (cta p) star_lit"
    using False includes_js_after_cta [of star_lit "description x" "cta p"] by simp
  show ?thesis
  proof (cases p)
    case Instagram
    with False 1 s cta_emoji(1) show ?thesis by (simp add: description_formatContent)
  next
    case Facebook
    with False 1 t cta_emoji(2) show ?thesis by (simp add: description_formatContent)
  next
    case Pinterest
    with False 1 s t cta_emoji(3,4) show ?thesis by (simp add: description_formatContent)
  qed
qed

lemma formatContent_twice:
  "formatContent (Some (x\<lparr>description := description_s (formatContent (Some x) p),
             tags := hashtags (formatContent (Some x) p)\<rparr>)) p = formatContent (Some x) p
   \<longleftrightarrow> p \<noteq> Pinterest \<or> includes_js (description x) sparkles_lit
       \<or> includes_js (description x) star_lit"
proof -
  let ?y = "x\<lparr>description := description_s (formatContent (Some x) p),
             tags := hashtags (formatContent (Some x) p)\<rparr>"
  have h: "hashtags (formatContent (Some ?y) p) = hashtags (formatContent (Some x) p)"
    by (simp add: hashtags_formatContent formatTags_idem)
  have "formatContent (Some ?y) p = formatContent (Some x) p
      \<longleftrightarrow> description_s (formatContent (Some ?y) p) = description_s (formatContent (Some x) p)"
    using h SocialContent_eqI [of "formatContent (Some ?y) p" "formatContent (Some x) p"]
    by metis
  also have "\<dots> \<longleftrightarrow> p \<noteq> Pinterest \<or> includes_js (description x) sparkles_lit
       \<or> includes_js (description x) star_lit"
    unfolding description_twice by (simp add: description_formatContent)
  finally show ?thesis .
qed

lemma validateDescription_cut:
  assumes "d \<noteq> []"
  shows "validateDescription d
      = Inr ((if \<not> includes_js (ig_truncated d @ ig_suffixes (ig_truncated d)) sparkles
                \<and> \<not> includes_js (ig_truncated d @ ig_suffixes (ig_truncated d)) glowing_star
              then sparkles @ [32] else []) @ ig_truncated d @ ig_suffixes (ig_truncated d))"
  using assms
  by (simp add: validateDescription_def Let_def ig_truncated_def [symmetric] ig_suffixes_def)

lemma validateDescription_value:
  assumes "d \<noteq> []"
    and "v = (if length (trim d) > ig_maxLength
              then take (ig_maxLength - 3) (trim d) @ ellipsis else trim d)"
    and "b = v
      @ (if \<not> someIncluded ig_emotional v \<or> \<not> someIncluded ig_personalization v
         then emotional_suffix else [])
      @ (if \<not> someIncluded ig_benefits v then benefits_suffix else [])
      @ (if \<not> someIncluded ig_cta v then cta_suffix else [])"
  shows "validateDescription d
      = Inr ((if \<not> includes_js b sparkles \<and> \<not> includes_js b glowing_star
              then sparkles @ [32] else []) @ b)"
proof -
  have v: "v = ig_truncated d" unfolding assms(2) ig_truncated_def substring0_def ..
  have b: "b = ig_truncated d @ ig_suffixes (ig_truncated d)"
    unfolding assms(3) v ig_suffixes_def ..
  show ?thesis unfolding b by (rule validateDescription_cut [OF assms(1)])
qed

lemma length_truncated:
  assumes "v = (if length (trim d) > ig_maxLength
              then take (ig_maxLength - 3) (trim d) @ ellipsis else trim d)"
  shows "length v \<le> ig_maxLength"
    and "length (trim d) > ig_maxLength \<Longrightarrow> length v = ig_maxLength"
    and "length (trim d) > ig_maxLength \<Longrightarrow> endsWith v ellipsis"
  unfolding assms by (simp_all add: ig_maxLength_def ellipsis_def endsWith_def)

lemma length_suffixes:
  "length ((if e then emotional_suffix else [])
      @ (if b then benefits_suffix else []) @ (if c then cta_suffix else []))
     \<in> {0, 14, 31, 45, 53, 67, 84, 98}"
  by (simp add: emotional_suffix_def benefits_suffix_def cta_suffix_def sparkles_def
      glowing_star_def palette_def)

lemma validateDescription_boundary:
  assumes "trim d = d" "length d \<le> ig_maxLength" "ig_maxLength < length d + 2"
    and "someIncluded ig_emotional d" "someIncluded ig_personalization d"
    and "someIncluded ig_benefits d" "someIncluded ig_cta d"
    and "\<not> includes_js d sparkles" "\<not> includes_js d glowing_star"
  shows "validateDescription d = Inr (sparkles @ [32] @ d)"
    and "validateDescription (sparkles @ [32] @ d) \<noteq> Inr (sparkles @ [32] @ d)"
proof -
  from assms(3) have dne: "d \<noteq> []" by (auto simp: ig_maxLength_def)
  show "validateDescription d = Inr (sparkles @ [32] @ d)"
    using dne assms by (intro validateDescription_prefixes) simp_all
  let ?s = "sparkles @ [32] @ d"
  let ?v = "take (ig_maxLength - 3) ?s @ ellipsis"
  let ?x = "(if \<not> someIncluded ig_emotional ?v \<or> \<not> someIncluded ig_personalization ?v
         then emotional_suffix else [])
      @ (if \<not> someIncluded ig_benefits ?v then benefits_suffix else [])
      @ (if \<not> someIncluded ig_cta ?v then cta_suffix else [])"
  have "\<not> isWhiteSpace (last d)" using trim_ends(2) [of d] dne assms(1) by simp
  then have t: "trim ?s = ?s"
    using dne by (intro trim_self) (simp_all add: sparkles_def isWhiteSpace_def)
  have l: "length (trim ?s) > ig_maxLength" unfolding t using assms(3) by (simp add: sparkles_def)
  have l': "length ?s > ig_maxLength" using l unfolding t .
  have v: "?v = (if length (trim ?s) > ig_maxLength
              then take (ig_maxLength - 3) (trim ?s) @ ellipsis else trim ?s)"
    by (simp only: t l' if_True)
  have "?v = sparkles @ (take (ig_maxLength - 4) ([32] @ d) @ ellipsis)"
    by (simp add: sparkles_def ig_maxLength_def)
  then have "includes_js ?v sparkles"
    using includes_js_appendI1 [OF includes_js_self, of sparkles] by simp
  then have i: "includes_js (?v @ ?x) sparkles" by (rule includes_js_appendI1)
  have "?s \<noteq> []" by (simp add: sparkles_def)
  from validateDescription_value [OF this v refl]
  have r: "validateDescription ?s = Inr (?v @ ?x)"
    by (simp only: i not_True_eq_False simp_thms if_False append_Nil)
  have "length ?v = ig_maxLength" using length_truncated(2) [OF v l] .
  moreover have "length ?x \<in> {0, 14, 31, 45, 53, 67, 84, 98}" by (rule length_suffixes)
  moreover have "length ?s = length d + 2" by (simp add: sparkles_def)
  ultimately have "length (?v @ ?x) \<noteq> length ?s"
    using assms(2,3) by (auto simp: ig_maxLength_def)
  then have "?v @ ?x \<noteq> ?s" by metis
  with r show "validateDescription ?s \<noteq> Inr ?s" by simp
qed

lemma asc_units: "c \<in> set (asc s) \<Longrightarrow> c < 256"
  by (auto simp: asc_def nat_of_char_less_256)

lemma pin_text_plain:
  "\<not> includes_js pin_text sparkles_lit" "\<not> includes_js pin_text star_lit"
proof -
  show "\<not> includes_js pin_text sparkles_lit"
  proof
    assume "includes_js pin_text sparkles_lit"
    then have "set sparkles_lit \<subseteq> set pin_text" by (rule includes_js_set)
    then have "8218 \<in> set pin_text" by (simp add: sparkles_lit_def)
    then have "(8218::nat) < 256" unfolding pin_text_def by (rule asc_units)
    then show False by simp
  qed
  show "\<not> includes_js pin_text star_lit"
  proof
    assume "includes_js pin_text star_lit"
    then have "set star_lit \<subseteq> set pin_text" by (rule includes_js_set)
    then have "63743 \<in> set pin_text" by (simp add: star_lit_def)
    then have "(63743::nat) < 256" unfolding pin_text_def by (rule asc_units)
    then show False by simp
  qed
qed

lemma pin_once_plain:
  "\<not> includes_js (pin_text @ [10, 10] @ cta Pinterest) sparkles_lit"
  "\<not> includes_js (pin_text @ [10, 10] @ cta Pinterest) star_lit"
  using pin_text_plain cta_emoji(3,4) by (simp_all only: includes_js_after_cta simp_thms)

lemma pin_twice_plain:
  "\<not> includes_js ((pin_text @ [10, 10] @ cta Pinterest) @ [10, 10] @ cta Pinterest)
        sparkles_lit"
  "\<not> includes_js ((pin_text @ [10, 10] @ cta Pinterest) @ [10, 10] @ cta Pinterest) star_lit"
  using pin_once_plain cta_emoji(3,4) by (simp_all only: includes_js_after_cta simp_thms)

lemma pin_normalized_bounds:
  "length (title pin_normalized) \<le> MAX_TITLE_LENGTH"
  "MIN_DESCRIPTION_LENGTH \<le> length (description pin_normalized)"
  "length (description pin_normalized) \<le> MAX_DESCRIPTION_LENGTH"
  by (simp_all add: pin_normalized_def pin_text_def magnifier_lit_def
      MAX_TITLE_LENGTH_def MIN_DESCRIPTION_LENGTH_def MAX_DESCRIPTION_LENGTH_def)

lemma formatContent_plain:
  assumes "\<not> includes_js (description x) sparkles_lit" "\<not> includes_js (description x) star_lit"
  shows "formatContent (Some x) Pinterest
    = \<lparr>description_s = description x @ [10, 10] @ cta Pinterest, hashtags = tags x\<rparr>"
  using assms by (simp add: formatContent_def Let_def del: cta.simps)

lemma hashPrefix_fun:
  "hashPrefix = (\<lambda>t. if startsWith t [hash] then t else hash # t)"
  by (rule ext) (simp add: hashPrefix_def)

lemma trimAll_fun: "trimAll = (\<lambda>ts. filter (\<lambda>t. t \<noteq> []) (map trim ts))"
  by (rule ext) (simp add: trimAll_def)

lemma isLongTail_fun:
  "isLongTail = (\<lambda>t. t \<noteq> [] \<and> 2 \<le> length (splitWs t) \<and> length (splitWs t) \<le> 5)"
  by (rule ext) (simp add: isLongTail_def Let_def)

lemma formatted_pieces:
  assumes "t \<in> set (map hashPrefix (trimAll (split comma s)))"
  shows "startsWith t [hash]" "comma \<notin> set t" "\<not> isWhiteSpace (last t)"
proof -
  from assms obtain w where w: "w \<in> set (split comma s)" "trim w \<noteq> []" "t = hashPrefix (trim w)"
    by (auto simp: trimAll_def)
  show "startsWith t [hash]" unfolding w(3) by (rule hashPrefix_starts)
  have "comma \<notin> set w" using w(1) by (rule split_parts_no_sep)
  then have "comma \<notin> set (trim w)" using set_trim [of w] by auto
  then show "comma \<notin> set t"
    unfolding w(3) using set_hashPrefix [of "trim w"] by (auto simp: comma_def hash_def)
  show "\<not> isWhiteSpace (last t)"
    unfolding w(3) last_hashPrefix [OF w(2)] by (rule trim_ends(2) [OF w(2)])
qed

lemma analyze_returns:
  assumes "analyzeImageAndGenerateContent parsed = Inr g"
  shows "tags_g g = join (asc '', '') (keywords_g g)"
    and "keywords_g g = filter isLongTail (map trim (split comma (tags parsed)))"
    and "10 \<le> length (keywords_g g)"
  using assms
  by (auto simp: analyzeImageAndGenerateContent_def Let_def split: if_splits)

lemma split_Nil_longTail: "filter isLongTail (map trim (split comma [])) = []"
  by (simp add: isLongTail_def trim_def)

lemma analyze_accepts:
  assumes "title parsed \<noteq> []" "description parsed \<noteq> []"
    and "10 \<le> length (filter isLongTail (map trim (split comma (tags parsed))))"
  shows "\<exists>g. analyzeImageAndGenerateContent parsed = Inr g
        \<and> keywords_g g = filter isLongTail (map trim (split comma (tags parsed)))"
proof -
  have "tags parsed \<noteq> []"
  proof
    assume "tags parsed = []"
    with assms(3) show False by (simp only: split_Nil_longTail) simp
  qed
  with assms show ?thesis
    by (simp add: analyzeImageAndGenerateContent_def Let_def)
qed

lemma market_pieces:
  "map trim (split comma (tags market_parsed))
     = map asc [''red mug'', ''blue mug'', ''mug'', ''tall mug'', ''mom mug'', ''dad mug'',
         ''big mug'', ''tea mug'', ''fun mug'', ''new mug'', ''a mug that is far too wordy'',
         ''#art mug'']"
  by (simp add: market_parsed_def asc_def comma_def trim_def isWhiteSpace_def)

lemma market_longTail:
  "filter isLongTail (map asc [''red mug'', ''blue mug'', ''mug'', ''tall mug'', ''mom mug'',
     ''dad mug'', ''big mug'', ''tea mug'', ''fun mug'', ''new mug'',
     ''a mug that is far too wordy'', ''#art mug''])
   = map asc [''red mug'', ''blue mug'', ''tall mug'', ''mom mug'', ''dad mug'', ''big mug'',
       ''tea mug'', ''fun mug'', ''new mug'', ''#art mug'']"
  by (simp add: isLongTail_def Let_def asc_def isWhiteSpace_def)

section \<open>Truncation of an overlong title\<close>



section \<open>Repair of the description\<close>



section \<open>Required and optional fields of the social-content entry point\<close>

text \<open>
  Claim C9. A parsed object whose title or description is missing, or is a string of white
  space only, is rejected: the body of \<open>validateContent\<close> returns \<open>null\<close>, and \<open>formatContent\<close>
  then answers with the platform's default description and tags. A tags field that is missing,
  or is a string that is empty or white space only, is no failure: with a title and a
  description that are not blank the result is a record whose tags are the platform's default
  tag string.
\<close>

theorem blank_fields_social:
  "((map_of kvs (asc ''title'') = None
      \<or> (\<exists>s. map_of kvs (asc ''title'') = Some (JString s) \<and> trim s = [])
      \<or> map_of kvs (asc ''description'') = None
      \<or> (\<exists>s. map_of kvs (asc ''description'') = Some (JString s) \<and> trim s = [])) \<longrightarrow>
      validateParsed (JObject kvs) p = None
      \<and> formatContent (validateParsed (JObject kvs) p) p
          = \<lparr>description_s = description (DEFAULT_CONTENT p),
             hashtags = tags (DEFAULT_CONTENT p)\<rparr>)
   \<and> (map_of kvs (asc ''title'') = Some (JString t) \<and> trim t \<noteq> []
        \<and> map_of kvs (asc ''description'') = Some (JString d) \<and> trim d \<noteq> []
        \<and> (map_of kvs (asc ''tags'') = None
            \<or> (\<exists>s. map_of kvs (asc ''tags'') = Some (JString s) \<and> trim s = [])) \<longrightarrow>
      (\<exists>r. validateParsed (JObject kvs) p = Some r \<and> tags r = tags (DEFAULT_CONTENT p)))"
proof (intro conjI impI)
  assume h: "map_of kvs (asc ''title'') = None
      \<or> (\<exists>s. map_of kvs (asc ''title'') = Some (JString s) \<and> trim s = [])
      \<or> map_of kvs (asc ''description'') = None
      \<or> (\<exists>s. map_of kvs (asc ''description'') = Some (JString s) \<and> trim s = [])"
  then show none: "validateParsed (JObject kvs) p = None"
    by (auto simp: validateParsed_def trimmedField_def split: option.splits json.splits)
  show "formatContent (validateParsed (JObject kvs) p) p
      = \<lparr>description_s = description (DEFAULT_CONTENT p), hashtags = tags (DEFAULT_CONTENT p)\<rparr>"
    by (simp add: none formatContent_def)
next
  assume h: "map_of kvs (asc ''title'') = Some (JString t) \<and> trim t \<noteq> []
      \<and> map_of kvs (asc ''description'') = Some (JString d) \<and> trim d \<noteq> []
      \<and> (map_of kvs (asc ''tags'') = None
          \<or> (\<exists>s. map_of kvs (asc ''tags'') = Some (JString s) \<and> trim s = []))"
  then have "tagsText (JObject kvs) = []"
    by (auto simp: tagsText_def)
  moreover from h have "validateParsed (JObject kvs) p =
      Some (normalizeFields p
        \<lparr>title = trim t, description = trim d, tags = tagsText (JObject kvs)\<rparr>)"
    by (intro validateParsed_Some) (simp_all add: trimmedField_def)
  ultimately show "\<exists>r. validateParsed (JObject kvs) p = Some r
      \<and> tags r = tags (DEFAULT_CONTENT p)"
    by (simp add: tags_normalizeFields)
qed

theorem blank_fields_social_witness:
  "validateParsed blank_title_object Pinterest = None
   \<and> (\<exists>r. validateParsed no_tags_object Pinterest = Some r
        \<and> tags r = asc ''optimized, pinterest, seo, design, creative'')"
proof -
  have a: "\<exists>s. map_of [(asc ''title'', JString (asc ''   '')),
      (asc ''description'', JString (asc ''A mug.'')),
      (asc ''tags'', JString (asc ''mug, mom''))] (asc ''title'') = Some (JString s) \<and> trim s = []"
    by (simp add: asc_def trim_def isWhiteSpace_def)
  have first: "validateParsed blank_title_object Pinterest = None"
    using blank_fields_social [of "[(asc ''title'', JString (asc ''   '')),
      (asc ''description'', JString (asc ''A mug.'')),
      (asc ''tags'', JString (asc ''mug, mom''))]" Pinterest] a
    unfolding blank_title_object_def by blast
  have b: "map_of [(asc ''title'', JString (asc ''Mug'')),
      (asc ''description'', JString (asc ''A mug.''))] (asc ''title'') = Some (JString (asc ''Mug''))
    \<and> trim (asc ''Mug'') \<noteq> []
    \<and> map_of [(asc ''title'', JString (asc ''Mug'')),
      (asc ''description'', JString (asc ''A mug.''))] (asc ''description'')
        = Some (JString (asc ''A mug.''))
    \<and> trim (asc ''A mug.'') \<noteq> []
    \<and> map_of [(asc ''title'', JString (asc ''Mug'')),
      (asc ''description'', JString (asc ''A mug.''))] (asc ''tags'') = None"
    by (simp add: asc_def trim_def isWhiteSpace_def)
  have second: "\<exists>r. validateParsed no_tags_object Pinterest = Some r
      \<and> tags r = tags (DEFAULT_CONTENT Pinterest)"
    using blank_fields_social [of "[(asc ''title'', JString (asc ''Mug'')),
      (asc ''description'', JString (asc ''A mug.''))]" Pinterest "asc ''Mug''" "asc ''A mug.''"] b
    unfolding no_tags_object_def by blast
  from first second show ?thesis by simp
qed

section \<open>Instagram: repairs come after the truncation\<close>

text \<open>
  Claim C10. \<open>validateDescription\<close> cuts the trimmed description to 150 units first and appends
  its repair sentences afterwards. For every description that is not empty, let \<open>v\<close> be the
  trimmed description, or its first 147 units followed by \<open>...\<close> when it is longer than 150
  units. The text returned is \<open>v\<close>, followed by the emotional sentence when \<open>v\<close> lacks an
  emotional or a personalization word, by the benefits sentence when \<open>v\<close> lacks a benefits word
  and by the call to action when \<open>v\<close> lacks a call-to-action phrase, with at most the sparkles
  sign and a space in front; \<open>v\<close> is never longer than 150 units, and is exactly 150 units long
  and ends with \<open>...\<close> when the trimmed description was longer. So there is a description
  that is not empty, is longer than 150 units and holds no word of any required group, for which
  the description returned is longer than 150 units; this happens for every description whose
  trimmed text is longer than 150 units and whose truncated text holds no call-to-action phrase.
  And for every description that is not empty the function returns, and the text it returns
  holds a call-to-action phrase.
\<close>

theorem suffixes_after_truncation:
  "(d \<noteq> [] \<and> v = (if length (trim d) > ig_maxLength
                     then take (ig_maxLength - 3) (trim d) @ ellipsis else trim d) \<longrightarrow>
      (\<exists>pre. (pre = [] \<or> pre = sparkles @ [32])
         \<and> validateDescription d
             = Inr (pre @ v
                 @ (if \<not> someIncluded ig_emotional v \<or> \<not> someIncluded ig_personalization v
                    then emotional_suffix else [])
                 @ (if \<not> someIncluded ig_benefits v then benefits_suffix else [])
                 @ (if \<not> someIncluded ig_cta v then cta_suffix else [])))
      \<and> length v \<le> ig_maxLength
      \<and> (length (trim d) > ig_maxLength \<longrightarrow> length v = ig_maxLength \<and> endsWith v ellipsis))
   \<and> (\<exists>d0. d0 \<noteq> [] \<and> length d0 > ig_maxLength
       \<and> \<not> someIncluded ig_emotional d0 \<and> \<not> someIncluded ig_personalization d0
       \<and> \<not> someIncluded ig_benefits d0 \<and> \<not> someIncluded ig_cta d0
       \<and> (\<exists>r. validateDescription d0 = Inr r \<and> length r > ig_maxLength))
   \<and> (d \<noteq> [] \<and> length (trim d) > ig_maxLength
        \<and> \<not> someIncluded ig_cta (substring0 (trim d) (ig_maxLength - 3) @ ellipsis) \<longrightarrow>
      (\<exists>r. validateDescription d = Inr r \<and> length r > ig_maxLength))
   \<and> (d \<noteq> [] \<longrightarrow> (\<exists>r. validateDescription d = Inr r \<and> someIncluded ig_cta r))"
proof (intro conjI impI)
  assume a: "d \<noteq> [] \<and> v = (if length (trim d) > ig_maxLength
                     then take (ig_maxLength - 3) (trim d) @ ellipsis else trim d)"
  then have dne: "d \<noteq> []" and v: "v = (if length (trim d) > ig_maxLength
                     then take (ig_maxLength - 3) (trim d) @ ellipsis else trim d)"
    by simp_all
  let ?b = "v
      @ (if \<not> someIncluded ig_emotional v \<or> \<not> someIncluded ig_personalization v
         then emotional_suffix else [])
      @ (if \<not> someIncluded ig_benefits v then benefits_suffix else [])
      @ (if \<not> someIncluded ig_cta v then cta_suffix else [])"
  let ?pre = "if \<not> includes_js ?b sparkles \<and> \<not> includes_js ?b glowing_star
              then sparkles @ [32] else []"
  have "validateDescription d = Inr (?pre @ ?b)"
    by (rule validateDescription_value [OF dne v refl])
  moreover have "?pre = [] \<or> ?pre = sparkles @ [32]" by simp
  ultimately show "\<exists>pre. (pre = [] \<or> pre = sparkles @ [32])
         \<and> validateDescription d = Inr (pre @ ?b)"
    by blast
  show "length v \<le> ig_maxLength" by (rule length_truncated(1) [OF v])
  assume "length (trim d) > ig_maxLength"
  then show "length v = ig_maxLength" "endsWith v ellipsis"
    by (rule length_truncated(2) [OF v], rule length_truncated(3) [OF v])
next
  let ?d = "replicate 160 (97::nat)"
  have t: "trim ?d = ?d" by (rule trim_replicate_a)
  have "\<exists>r. validateDescription ?d = Inr r \<and> length r > ig_maxLength"
  proof (rule overlong_after_truncation)
    show "?d \<noteq> []" by simp
    show "length (trim ?d) > ig_maxLength" by (simp add: t ig_maxLength_def)
    show "\<not> someIncluded ig_cta (substring0 (trim ?d) (ig_maxLength - 3) @ ellipsis)"
      unfolding t substring0_def take_replicate
      by (rule not_someIncluded_plain [OF plain_a(2) keywords_not_plain(4)])
  qed
  moreover have "?d \<noteq> []" "length ?d > ig_maxLength" by (simp_all add: ig_maxLength_def)
  moreover have "\<not> someIncluded ig_emotional ?d" "\<not> someIncluded ig_personalization ?d"
    "\<not> someIncluded ig_benefits ?d" "\<not> someIncluded ig_cta ?d"
    by (rule not_someIncluded_plain [OF plain_a(1)], rule keywords_not_plain)+
  ultimately show "\<exists>d0. d0 \<noteq> [] \<and> length d0 > ig_maxLength
       \<and> \<not> someIncluded ig_emotional d0 \<and> \<not> someIncluded ig_personalization d0
       \<and> \<not> someIncluded ig_benefits d0 \<and> \<not> someIncluded ig_cta d0
       \<and> (\<exists>r. validateDescription d0 = Inr r \<and> length r > ig_maxLength)"
    by blast
next
  assume "d \<noteq> [] \<and> length (trim d) > ig_maxLength
        \<and> \<not> someIncluded ig_cta (substring0 (trim d) (ig_maxLength - 3) @ ellipsis)"
  then show "\<exists>r. validateDescription d = Inr r \<and> length r > ig_maxLength"
    by (intro overlong_after_truncation) simp_all
next
  assume "d \<noteq> []"
  then show "\<exists>r. validateDescription d = Inr r \<and> someIncluded ig_cta r"
    by (rule cta_on_return)
qed

theorem suffixes_after_truncation_witness:
  "(\<exists>pre. (pre = [] \<or> pre = sparkles @ [32])
      \<and> validateDescription (replicate 160 97)
          = Inr (pre @ replicate 147 97 @ ellipsis
               @ emotional_suffix @ benefits_suffix @ cta_suffix))
   \<and> length (replicate 147 (97::nat) @ ellipsis) = ig_maxLength
   \<and> (\<exists>r. validateDescription (replicate 160 97) = Inr r
         \<and> length r > ig_maxLength \<and> someIncluded ig_cta r)"
proof -
  let ?d = "replicate 160 (97::nat)"
  let ?v = "replicate 147 (97::nat) @ ellipsis"
  have t: "trim ?d = ?d" by (rule trim_replicate_a)
  have 1: "?d \<noteq> []" by simp
  have 2: "length (trim ?d) > ig_maxLength" by (simp add: t ig_maxLength_def)
  have v: "?v = (if length (trim ?d) > ig_maxLength
                 then take (ig_maxLength - 3) (trim ?d) @ ellipsis else trim ?d)"
    unfolding t by (simp add: ig_maxLength_def)
  have n: "\<not> someIncluded ig_emotional ?v" "\<not> someIncluded ig_personalization ?v"
    "\<not> someIncluded ig_benefits ?v" "\<not> someIncluded ig_cta ?v"
    by (rule not_someIncluded_plain [OF plain_a(2)], rule keywords_not_plain)+
  have 3: "\<not> someIncluded ig_cta (substring0 (trim ?d) (ig_maxLength - 3) @ ellipsis)"
    unfolding t substring0_def take_replicate
    by (rule not_someIncluded_plain [OF plain_a(2) keywords_not_plain(4)])
  note T = suffixes_after_truncation [where d = ?d and v = ?v]
  from T 1 v have "\<exists>pre. (pre = [] \<or> pre = sparkles @ [32])
         \<and> validateDescription ?d
             = Inr (pre @ ?v
                 @ (if \<not> someIncluded ig_emotional ?v \<or> \<not> someIncluded ig_personalization ?v
                    then emotional_suffix else [])
                 @ (if \<not> someIncluded ig_benefits ?v then benefits_suffix else [])
                 @ (if \<not> someIncluded ig_cta ?v then cta_suffix else []))"
    by blast
  then have a: "\<exists>pre. (pre = [] \<or> pre = sparkles @ [32])
      \<and> validateDescription ?d
          = Inr (pre @ ?v @ emotional_suffix @ benefits_suffix @ cta_suffix)"
    by (simp only: n simp_thms if_True append_assoc)
  from T 1 v 2 have b: "length ?v = ig_maxLength" by blast
  from T 1 2 3
  obtain r where "validateDescription ?d = Inr r" "length r > ig_maxLength" by blast
  moreover from T 1
  obtain r' where "validateDescription ?d = Inr r'" "someIncluded ig_cta r'" by blast
  ultimately have c: "\<exists>r. validateDescription ?d = Inr r
         \<and> length r > ig_maxLength \<and> someIncluded ig_cta r" by auto
  from a b c show ?thesis by (simp only: append_assoc simp_thms)
qed

section \<open>Idempotence of the repairs\<close>

text \<open>
  Claim C6 as stated fails on \<open>formatContent\<close> for Pinterest. The record \<open>pin_normalized\<close> is
  within every bound, its tags are the plain list that Pinterest keeps, and its description is
  the one \<open>formatContent\<close> returns for the text \<open>pin_text\<close>: it ends with the Pinterest call to
  action and its emoji. \<open>formatContent\<close> looks for the sparkles sign and the glowing star only,
  finds neither, and appends the call to action again, on every pass: once more on the first
  pass and a third time on the second.
\<close>

theorem pinterest_cta_added_again:
  "length (title pin_normalized) \<le> MAX_TITLE_LENGTH
   \<and> MIN_DESCRIPTION_LENGTH \<le> length (description pin_normalized)
   \<and> length (description pin_normalized) \<le> MAX_DESCRIPTION_LENGTH
   \<and> includes_js (description pin_normalized) (cta Pinterest)
   \<and> description pin_normalized
       = description_s (formatContent (Some (pin_normalized\<lparr>description := pin_text\<rparr>)) Pinterest)
   \<and> formatContent (Some pin_normalized) Pinterest
       = \<lparr>description_s = pin_text @ [10, 10] @ cta Pinterest @ [10, 10] @ cta Pinterest,
          hashtags = asc ''mug, gift''\<rparr>
   \<and> formatContent (Some (pin_normalized\<lparr>
          description := description_s (formatContent (Some pin_normalized) Pinterest),
          tags := hashtags (formatContent (Some pin_normalized) Pinterest)\<rparr>)) Pinterest
       = \<lparr>description_s = pin_text @ [10, 10] @ cta Pinterest @ [10, 10] @ cta Pinterest
            @ [10, 10] @ cta Pinterest,
          hashtags = asc ''mug, gift''\<rparr>
   \<and> formatContent (Some (pin_normalized\<lparr>
          description := description_s (formatContent (Some pin_normalized) Pinterest),
          tags := hashtags (formatContent (Some pin_normalized) Pinterest)\<rparr>)) Pinterest
       \<noteq> formatContent (Some pin_normalized) Pinterest"
proof -
  let ?c = "cta Pinterest"
  have d: "description pin_normalized = pin_text @ [10, 10] @ ?c"
    and g: "tags pin_normalized = asc ''mug, gift''"
    by (simp_all add: pin_normalized_def del: cta.simps)
  have 3: "includes_js (description pin_normalized) ?c"
  proof -
    have "description pin_normalized = (pin_text @ [10, 10]) @ ?c @ []"
      unfolding d by simp
    then show ?thesis unfolding includes_js_iff by blast
  qed
  have 4: "description pin_normalized
       = description_s (formatContent (Some (pin_normalized\<lparr>description := pin_text\<rparr>)) Pinterest)"
    by (subst formatContent_plain) (simp_all add: pin_text_plain d del: cta.simps)
  have 5: "formatContent (Some pin_normalized) Pinterest
       = \<lparr>description_s = pin_text @ [10, 10] @ ?c @ [10, 10] @ ?c,
          hashtags = asc ''mug, gift''\<rparr>"
    by (subst formatContent_plain) (use pin_once_plain in \<open>simp_all add: d g del: cta.simps\<close>)
  have 6: "formatContent (Some (pin_normalized\<lparr>
          description := description_s (formatContent (Some pin_normalized) Pinterest),
          tags := hashtags (formatContent (Some pin_normalized) Pinterest)\<rparr>)) Pinterest
       = \<lparr>description_s = pin_text @ [10, 10] @ ?c @ [10, 10] @ ?c @ [10, 10] @ ?c,
          hashtags = asc ''mug, gift''\<rparr>"
    unfolding 5
    by (subst formatContent_plain) (use pin_twice_plain in \<open>simp_all del: cta.simps\<close>)
  have 7: "formatContent (Some (pin_normalized\<lparr>
          description := description_s (formatContent (Some pin_normalized) Pinterest),
          tags := hashtags (formatContent (Some pin_normalized) Pinterest)\<rparr>)) Pinterest
       \<noteq> formatContent (Some pin_normalized) Pinterest"
    unfolding 6 unfolding 5 by (simp del: cta.simps)
  from pin_normalized_bounds 3 4 5 6 7 show ?thesis by (intro conjI)
qed

text \<open>
  Claim C6, amended. Let a description be at most 150 units long and hold a word of each of the
  four required groups, and let it also hold the sparkles sign or the glowing star, or else be
  at most 148 units long. Then \<open>validateDescription\<close> returns a text on which a second pass
  returns the same text. When such a description is trimmed, holds neither of the two signs and
  is 149 or 150 units long, the first pass returns it with the sparkles sign and a space in
  front, and the second pass does not return that text again. \<open>formatContent\<close>, applied to a
  record and then again to the record with the description and tags it returned, gives the
  same description and hashtags both times for Instagram and for Facebook, whatever the record;
  for Pinterest it does so exactly when the description of the record holds one of the two
  emoji that \<open>formatContent\<close> looks for.
\<close>

theorem normalization_idempotent:
  "(length d \<le> ig_maxLength
      \<and> someIncluded ig_emotional d \<and> someIncluded ig_personalization d
      \<and> someIncluded ig_benefits d \<and> someIncluded ig_cta d
      \<and> (includes_js d sparkles \<or> includes_js d glowing_star \<or> length d + 2 \<le> ig_maxLength) \<longrightarrow>
      (\<exists>r. validateDescription d = Inr r \<and> validateDescription r = Inr r))
   \<and> (trim d = d \<and> length d \<le> ig_maxLength \<and> ig_maxLength < length d + 2
      \<and> someIncluded ig_emotional d \<and> someIncluded ig_personalization d
      \<and> someIncluded ig_benefits d \<and> someIncluded ig_cta d
      \<and> \<not> includes_js d sparkles \<and> \<not> includes_js d glowing_star \<longrightarrow>
      validateDescription d = Inr (sparkles @ [32] @ d)
      \<and> validateDescription (sparkles @ [32] @ d) \<noteq> Inr (sparkles @ [32] @ d))
   \<and> (formatContent (Some (x\<lparr>description := description_s (formatContent (Some x) p),
             tags := hashtags (formatContent (Some x) p)\<rparr>)) p
        = formatContent (Some x) p
      \<longleftrightarrow> p \<noteq> Pinterest \<or> includes_js (description x) sparkles_lit
          \<or> includes_js (description x) star_lit)"
proof (intro conjI impI)
  assume "length d \<le> ig_maxLength
      \<and> someIncluded ig_emotional d \<and> someIncluded ig_personalization d
      \<and> someIncluded ig_benefits d \<and> someIncluded ig_cta d
      \<and> (includes_js d sparkles \<or> includes_js d glowing_star \<or> length d + 2 \<le> ig_maxLength)"
  then show "\<exists>r. validateDescription d = Inr r \<and> validateDescription r = Inr r"
    by (intro validateDescription_idem) simp_all
next
  assume a: "trim d = d \<and> length d \<le> ig_maxLength \<and> ig_maxLength < length d + 2
      \<and> someIncluded ig_emotional d \<and> someIncluded ig_personalization d
      \<and> someIncluded ig_benefits d \<and> someIncluded ig_cta d
      \<and> \<not> includes_js d sparkles \<and> \<not> includes_js d glowing_star"
  then show "validateDescription d = Inr (sparkles @ [32] @ d)"
    by (intro validateDescription_boundary(1)) simp_all
  from a show "validateDescription (sparkles @ [32] @ d) \<noteq> Inr (sparkles @ [32] @ d)"
    by (intro validateDescription_boundary(2)) simp_all
next
  show "formatContent (Some (x\<lparr>description := description_s (formatContent (Some x) p),
             tags := hashtags (formatContent (Some x) p)\<rparr>)) p
        = formatContent (Some x) p
      \<longleftrightarrow> p \<noteq> Pinterest \<or> includes_js (description x) sparkles_lit
          \<or> includes_js (description x) star_lit"
    by (rule formatContent_twice)
qed

theorem normalization_idempotent_witness:
  "(\<exists>r. validateDescription normalized_caption = Inr r \<and> validateDescription r = Inr r)
   \<and> validateDescription idem_input = Inr (sparkles @ [32] @ idem_input)
   \<and> validateDescription (sparkles @ [32] @ idem_input) \<noteq> Inr (sparkles @ [32] @ idem_input)
   \<and> formatContent (Some (pin_content\<lparr>
          description := description_s (formatContent (Some pin_content) Facebook),
          tags := hashtags (formatContent (Some pin_content) Facebook)\<rparr>)) Facebook
        = formatContent (Some pin_content) Facebook
   \<and> formatContent (Some (pin_content\<lparr>
          description := description_s (formatContent (Some pin_content) Pinterest),
          tags := hashtags (formatContent (Some pin_content) Pinterest)\<rparr>)) Pinterest
        \<noteq> formatContent (Some pin_content) Pinterest"
proof -
  have l: "length normalized_caption \<le> ig_maxLength"
    by (simp add: normalized_caption_def sparkles_def ig_maxLength_def)
  have w: "someIncluded ig_emotional (asc ''Make your day special with premium quality. Shop now! '')"
    "someIncluded ig_personalization (asc ''Make your day special with premium quality. Shop now! '')"
    "someIncluded ig_benefits (asc ''Make your day special with premium quality. Shop now! '')"
    "someIncluded ig_cta (asc ''Make your day special with premium quality. Shop now! '')"
    by (simp_all add: someIncluded_def ig_emotional_def ig_personalization_def ig_benefits_def
        ig_cta_def asc_def toLowerCase_def lowerUnit_def startsWith_def)
  have w': "someIncluded ig_emotional normalized_caption"
    "someIncluded ig_personalization normalized_caption"
    "someIncluded ig_benefits normalized_caption" "someIncluded ig_cta normalized_caption"
    unfolding normalized_caption_def by (rule someIncluded_appendI1, rule w)+
  have e: "includes_js normalized_caption sparkles"
    unfolding normalized_caption_def by (rule includes_js_appendI2) simp
  note A = normalization_idempotent [where d = normalized_caption and x = pin_content
      and p = Facebook]
  note B = normalization_idempotent [where d = idem_input and x = pin_content
      and p = Pinterest]
  from A l w' e
  have 1: "\<exists>r. validateDescription normalized_caption = Inr r \<and> validateDescription r = Inr r"
    by blast
  have b: "length idem_input \<le> ig_maxLength" "ig_maxLength < length idem_input + 2"
    by (simp_all add: idem_input_facts(1) ig_maxLength_def)
  from B b idem_input_facts
  have 2: "validateDescription idem_input = Inr (sparkles @ [32] @ idem_input)"
    and 3: "validateDescription (sparkles @ [32] @ idem_input)
        \<noteq> Inr (sparkles @ [32] @ idem_input)"
    by blast+
  have f: "Facebook \<noteq> Pinterest" by simp
  from A f have 4: "formatContent (Some (pin_content\<lparr>
          description := description_s (formatContent (Some pin_content) Facebook),
          tags := hashtags (formatContent (Some pin_content) Facebook)\<rparr>)) Facebook
        = formatContent (Some pin_content) Facebook"
    by blast
  have d: "description pin_content = pin_text" by (simp add: pin_content_def)
  from B pin_text_plain have 5: "formatContent (Some (pin_content\<lparr>
          description := description_s (formatContent (Some pin_content) Pinterest),
          tags := hashtags (formatContent (Some pin_content) Pinterest)\<rparr>)) Pinterest
        \<noteq> formatContent (Some pin_content) Pinterest"
    unfolding d by blast
  from 1 2 3 4 5 show ?thesis by (intro conjI)
qed

section \<open>Formatting of the tags\<close>

text \<open>
  Claim C8 as stated fails for Pinterest: \<open>formatContent\<close> returns the tag string of a
  Pinterest record as it is, separated by commas and without \<open>#\<close>.
\<close>

theorem pinterest_tags_unprefixed:
  "hashtags (formatContent (Some pin_content) Pinterest) = asc ''mug, gift''
   \<and> hashtags (formatContent (Some pin_content) Pinterest) \<noteq> asc ''#mug #gift''
   \<and> hashtags (formatContent (Some pin_content) Instagram) = asc ''#mug #gift''"
  by (simp add: hashtags_formatContent pin_content_def formatTags_def trimAll_def asc_def
      comma_def hash_def trim_def isWhiteSpace_def hashPrefix_def startsWith_def)


text \<open>
  Claim C8, amended. For Instagram and Facebook the hashtags of \<open>formatContent\<close> are the tags
  between the commas, trimmed, the empty ones dropped, each with \<open>#\<close> in front unless it
  starts with \<open>#\<close> already, joined by single spaces; for Pinterest they are the tag string
  unchanged. \<open>formatContent\<close> has no maximum. \<open>validateHashtags\<close>, whenever it returns, returns
  the first 15 of the cleaned tags in their order, never fewer than 10; it returns whenever at
  least 10 tags are left after cleaning and every category is covered.
\<close>

text \<open>
  Claim C8, amended. For Instagram and Facebook the hashtags of \<open>formatContent\<close> are the tags
  between the commas, trimmed, the empty ones dropped, each with \<open>#\<close> in front unless it
  starts with \<open>#\<close> already, joined by single spaces; each of them starts with \<open>#\<close>, holds no
  comma and does not end with white space. For Pinterest they are the tag string unchanged.
  \<open>formatContent\<close> has no maximum. \<open>validateHashtags\<close>, whenever it returns, returns the first
  15 of the cleaned tags in their order, never fewer than 10; it returns whenever at least 10
  tags are left after cleaning and every category is covered. For the marketplace,
  \<open>analyzeImageAndGenerateContent\<close>, whenever it returns, returns as tags the trimmed tags of
  two to five words in their order, joined by a comma and a space, with no \<open>#\<close> put in front
  and no maximum, never fewer than 10; it returns whenever title and description are not empty
  and at least 10 such tags are there.
\<close>

theorem tags_formatting:
  "(p \<noteq> Pinterest \<longrightarrow>
      hashtags (formatContent (Some c) p)
        = join [32] (map (\<lambda>t. if startsWith t [hash] then t else hash # t)
            (filter (\<lambda>t. t \<noteq> []) (map trim (split comma (tags c))))))
   \<and> hashtags (formatContent (Some c) Pinterest) = tags c
   \<and> (\<forall>t \<in> set (map (\<lambda>t. if startsWith t [hash] then t else hash # t)
            (filter (\<lambda>t. t \<noteq> []) (map trim (split comma (tags c))))).
        startsWith t [hash] \<and> comma \<notin> set t \<and> \<not> isWhiteSpace (last t))
   \<and> trimAll ts = filter (\<lambda>t. t \<noteq> []) (map trim ts)
   \<and> list_all (\<lambda>t. startsWith t [hash]) (map hashPrefix (trimAll ts))
   \<and> (startsWith t [hash] \<longrightarrow> hashPrefix t = t)
   \<and> (\<not> startsWith t [hash] \<longrightarrow> hashPrefix t = hash # t)
   \<and> (validateHashtags ts = Inr r \<longrightarrow>
        r = take ig_hashtags_max (map hashPrefix (trimAll ts))
        \<and> ig_hashtags_min \<le> length r \<and> length r \<le> ig_hashtags_max)
   \<and> (ig_hashtags_min \<le> length (trimAll ts)
        \<and> missingCategories (map toLowerCase (map hashPrefix (trimAll ts))) = [] \<longrightarrow>
      validateHashtags ts = Inr (take ig_hashtags_max (map hashPrefix (trimAll ts))))
   \<and> (analyzeImageAndGenerateContent parsed = Inr g \<longrightarrow>
        tags_g g = join (asc '', '') (keywords_g g)
        \<and> keywords_g g
            = filter (\<lambda>t. t \<noteq> [] \<and> 2 \<le> length (splitWs t) \<and> length (splitWs t) \<le> 5)
                (map trim (split comma (tags parsed)))
        \<and> 10 \<le> length (keywords_g g))
   \<and> (title parsed \<noteq> [] \<and> description parsed \<noteq> []
        \<and> 10 \<le> length (filter (\<lambda>t. t \<noteq> [] \<and> 2 \<le> length (splitWs t) \<and> length (splitWs t) \<le> 5)
                (map trim (split comma (tags parsed)))) \<longrightarrow>
      (\<exists>g. analyzeImageAndGenerateContent parsed = Inr g
         \<and> tags_g g = join (asc '', '')
             (filter (\<lambda>t. t \<noteq> [] \<and> 2 \<le> length (splitWs t) \<and> length (splitWs t) \<le> 5)
                (map trim (split comma (tags parsed))))))"
proof (intro conjI impI ballI)
  assume "p \<noteq> Pinterest"
  then show "hashtags (formatContent (Some c) p)
      = join [32] (map (\<lambda>t. if startsWith t [hash] then t else hash # t)
            (filter (\<lambda>t. t \<noteq> []) (map trim (split comma (tags c)))))"
    by (simp add: hashtags_formatContent formatTags_def trimAll_def hashPrefix_fun)
next
  show "hashtags (formatContent (Some c) Pinterest) = tags c"
    by (simp add: hashtags_formatContent)
next
  fix u
  assume "u \<in> set (map (\<lambda>t. if startsWith t [hash] then t else hash # t)
            (filter (\<lambda>t. t \<noteq> []) (map trim (split comma (tags c)))))"
  then have u: "u \<in> set (map hashPrefix (trimAll (split comma (tags c))))"
    by (simp only: hashPrefix_fun trimAll_fun)
  show "startsWith u [hash]" "comma \<notin> set u" "\<not> isWhiteSpace (last u)"
    by (rule formatted_pieces [OF u])+
next
  show "trimAll ts = filter (\<lambda>t. t \<noteq> []) (map trim ts)" by (rule trimAll_def)
next
  show "list_all (\<lambda>t. startsWith t [hash]) (map hashPrefix (trimAll ts))"
    by (simp add: list_all_iff hashPrefix_starts)
next
  assume "startsWith t [hash]"
  then show "hashPrefix t = t" by (simp add: hashPrefix_def)
next
  assume "\<not> startsWith t [hash]"
  then show "hashPrefix t = hash # t" by (simp add: hashPrefix_def)
next
  assume a: "validateHashtags ts = Inr r"
  then show "r = take ig_hashtags_max (map hashPrefix (trimAll ts))"
    by (simp add: validateHashtags_eq split: if_splits)
  from a show "ig_hashtags_min \<le> length r"
    by (auto simp: validateHashtags_eq ig_hashtags_min_def ig_hashtags_max_def split: if_splits)
  from a show "length r \<le> ig_hashtags_max"
    by (auto simp: validateHashtags_eq split: if_splits)
next
  assume "ig_hashtags_min \<le> length (trimAll ts)
        \<and> missingCategories (map toLowerCase (map hashPrefix (trimAll ts))) = []"
  then show "validateHashtags ts = Inr (take ig_hashtags_max (map hashPrefix (trimAll ts)))"
    by (simp add: validateHashtags_eq)
next
  assume a: "analyzeImageAndGenerateContent parsed = Inr g"
  show "tags_g g = join (asc '', '') (keywords_g g)" by (rule analyze_returns(1) [OF a])
  show "keywords_g g
      = filter (\<lambda>t. t \<noteq> [] \<and> 2 \<le> length (splitWs t) \<and> length (splitWs t) \<le> 5)
          (map trim (split comma (tags parsed)))"
    using analyze_returns(2) [OF a] by (simp only: isLongTail_fun)
  show "10 \<le> length (keywords_g g)" by (rule analyze_returns(3) [OF a])
next
  assume a: "title parsed \<noteq> [] \<and> description parsed \<noteq> []
        \<and> 10 \<le> length (filter (\<lambda>t. t \<noteq> [] \<and> 2 \<le> length (splitWs t) \<and> length (splitWs t) \<le> 5)
                (map trim (split comma (tags parsed))))"
  then have "10 \<le> length (filter isLongTail (map trim (split comma (tags parsed))))"
    by (simp only: isLongTail_fun)
  with a obtain g where g: "analyzeImageAndGenerateContent parsed = Inr g"
    using analyze_accepts [of parsed] by blast
  have "tags_g g = join (asc '', '')
             (filter (\<lambda>t. t \<noteq> [] \<and> 2 \<le> length (splitWs t) \<and> length (splitWs t) \<le> 5)
                (map trim (split comma (tags parsed))))"
    using analyze_returns(1,2) [OF g] by (simp only: isLongTail_fun)
  with g show "\<exists>g. analyzeImageAndGenerateContent parsed = Inr g
         \<and> tags_g g = join (asc '', '')
             (filter (\<lambda>t. t \<noteq> [] \<and> 2 \<le> length (splitWs t) \<and> length (splitWs t) \<le> 5)
                (map trim (split comma (tags parsed))))"
    by blast
qed

theorem tags_formatting_witness:
  "hashtags (formatContent (Some tagged_content) Facebook) = asc ''#mug #gift #for mom''
   \<and> hashtags (formatContent (Some tagged_content) Pinterest) = asc ''mug, #gift,, for mom ''
   \<and> hashPrefix (asc ''#gift'') = asc ''#gift'' \<and> hashPrefix (asc ''mug'') = asc ''#mug''
   \<and> validateHashtags sixteen_tags = Inr (map asc [''#easter'', ''#gift'', ''#custom'',
     ''#handmade'', ''#mug'', ''#mom'', ''#spring'', ''#decor'', ''#unique'', ''#premium'',
     ''#love'', ''#home'', ''#art'', ''#cute'', ''#joy''])
   \<and> length (map asc [''#easter'', ''#gift'', ''#custom'',
     ''#handmade'', ''#mug'', ''#mom'', ''#spring'', ''#decor'', ''#unique'', ''#premium'',
     ''#love'', ''#home'', ''#art'', ''#cute'', ''#joy'']) = ig_hashtags_max
   \<and> startsWith (asc ''#for mom'') [hash] \<and> comma \<notin> set (asc ''#for mom'')
   \<and> (\<exists>g. analyzeImageAndGenerateContent market_parsed = Inr g
        \<and> tags_g g = asc ''red mug, blue mug, tall mug, mom mug, dad mug, big mug, tea mug, fun mug, new mug, #art mug''
        \<and> tags_g g = join (asc '', '') (keywords_g g) \<and> 10 \<le> length (keywords_g g))"
proof -
  note T = tags_formatting [where p = Facebook and c = tagged_content and ts = sixteen_tags
      and t = "asc ''#gift''" and parsed = market_parsed]
  note U = tags_formatting [where p = Facebook and c = tagged_content and ts = sixteen_tags
      and t = "asc ''mug''" and parsed = market_parsed]
  note c = conjunct2
  have f: "Facebook \<noteq> Pinterest" by simp
  have 1: "hashtags (formatContent (Some tagged_content) Facebook) = asc ''#mug #gift #for mom''"
    using T [THEN conjunct1, THEN mp, OF f]
    by (simp add: tagged_content_def asc_def comma_def hash_def trim_def
        isWhiteSpace_def startsWith_def)
  have 2: "hashtags (formatContent (Some tagged_content) Pinterest) = asc ''mug, #gift,, for mom ''"
    using T [THEN c, THEN conjunct1] by (simp add: tagged_content_def)
  have s1: "startsWith (asc ''#gift'') [hash]" by (simp add: startsWith_def asc_def hash_def)
  have s2: "\<not> startsWith (asc ''mug'') [hash]" by (simp add: startsWith_def asc_def hash_def)
  have 3: "hashPrefix (asc ''#gift'') = asc ''#gift''"
    by (rule T [THEN c, THEN c, THEN c, THEN c, THEN c, THEN conjunct1, THEN mp, OF s1])
  have 4: "hashPrefix (asc ''mug'') = asc ''#mug''"
    using U [THEN c, THEN c, THEN c, THEN c, THEN c, THEN c, THEN conjunct1, THEN mp, OF s2]
    by (simp add: asc_def hash_def)
  have n: "ig_hashtags_min \<le> length (trimAll sixteen_tags)"
    by (simp add: sixteen_tags_def trimAll_def asc_def trim_def isWhiteSpace_def ig_hashtags_min_def)
  have "validateHashtags sixteen_tags
      = Inr (take ig_hashtags_max (map hashPrefix (trimAll sixteen_tags)))"
    by (rule T [THEN c, THEN c, THEN c, THEN c, THEN c, THEN c, THEN c, THEN c, THEN conjunct1,
          THEN mp, OF conjI [OF n sixteen_categories]])
  then have 5: "validateHashtags sixteen_tags = Inr (map asc [''#easter'', ''#gift'', ''#custom'',
     ''#handmade'', ''#mug'', ''#mom'', ''#spring'', ''#decor'', ''#unique'', ''#premium'',
     ''#love'', ''#home'', ''#art'', ''#cute'', ''#joy''])"
    by (simp add: sixteen_cleaned ig_hashtags_max_def)
  have k: "filter (\<lambda>t. t \<noteq> [] \<and> 2 \<le> length (splitWs t) \<and> length (splitWs t) \<le> 5)
      (map trim (split comma (tags market_parsed)))
    = map asc [''red mug'', ''blue mug'', ''tall mug'', ''mom mug'', ''dad mug'', ''big mug'',
       ''tea mug'', ''fun mug'', ''new mug'', ''#art mug'']"
    using market_longTail unfolding market_pieces by (simp only: isLongTail_fun)
  have m: "title market_parsed \<noteq> []" "description market_parsed \<noteq> []"
    by (simp_all add: market_parsed_def asc_def)
  have j: "join (asc '', '') (map asc [''red mug'', ''blue mug'', ''tall mug'', ''mom mug'',
       ''dad mug'', ''big mug'', ''tea mug'', ''fun mug'', ''new mug'', ''#art mug''])
     = asc ''red mug, blue mug, tall mug, mom mug, dad mug, big mug, tea mug, fun mug, new mug, #art mug''"
    by (simp add: asc_def)
  have l: "10 \<le> length (filter (\<lambda>t. t \<noteq> [] \<and> 2 \<le> length (splitWs t) \<and> length (splitWs t) \<le> 5)
      (map trim (split comma (tags market_parsed))))"
    unfolding k by simp
  have "\<exists>g. analyzeImageAndGenerateContent market_parsed = Inr g
         \<and> tags_g g = join (asc '', '')
             (filter (\<lambda>t. t \<noteq> [] \<and> 2 \<le> length (splitWs t) \<and> length (splitWs t) \<le> 5)
                (map trim (split comma (tags market_parsed))))"
    by (rule T [THEN c, THEN c, THEN c, THEN c, THEN c, THEN c, THEN c, THEN c, THEN c, THEN c,
          THEN mp, OF conjI [OF m(1) conjI [OF m(2) l]]])
  then obtain g where g: "analyzeImageAndGenerateContent market_parsed = Inr g"
    and tg: "tags_g g = asc ''red mug, blue mug, tall mug, mom mug, dad mug, big mug, tea mug, fun mug, new mug, #art mug''"
    unfolding k j by blast
  note G = tags_formatting [where parsed = market_parsed and g = g, THEN c, THEN c, THEN c,
      THEN c, THEN c, THEN c, THEN c, THEN c, THEN c, THEN conjunct1, THEN mp, OF g]
  from g tg G have 6: "\<exists>g. analyzeImageAndGenerateContent market_parsed = Inr g
        \<and> tags_g g = asc ''red mug, blue mug, tall mug, mom mug, dad mug, big mug, tea mug, fun mug, new mug, #art mug''
        \<and> tags_g g = join (asc '', '') (keywords_g g) \<and> 10 \<le> length (keywords_g g)"
    by blast
  let ?r = "map asc [''#easter'', ''#gift'', ''#custom'',
     ''#handmade'', ''#mug'', ''#mom'', ''#spring'', ''#decor'', ''#unique'', ''#premium'',
     ''#love'', ''#home'', ''#art'', ''#cute'', ''#joy'']"
  note R = tags_formatting [where ts = sixteen_tags and r = ?r, THEN c, THEN c, THEN c,
      THEN c, THEN c, THEN c, THEN c, THEN conjunct1, THEN mp, OF 5]
  have "length ?r \<le> ig_hashtags_max" by (rule R [THEN conjunct2, THEN conjunct2])
  then have 7: "length ?r = ig_hashtags_max" by (simp add: ig_hashtags_max_def)
  have e: "asc ''#for mom'' \<in> set (map (\<lambda>t. if startsWith t [hash] then t else hash # t)
            (filter (\<lambda>t. t \<noteq> []) (map trim (split comma (tags tagged_content)))))"
    by (simp add: tagged_content_def asc_def comma_def hash_def trim_def
        isWhiteSpace_def startsWith_def)
  note P = T [THEN c, THEN c, THEN conjunct1, THEN bspec, OF e]
  have 8: "startsWith (asc ''#for mom'') [hash]" "comma \<notin> set (asc ''#for mom'')"
    by (rule P [THEN conjunct1], rule P [THEN conjunct2, THEN conjunct1])
  from 1 2 3 4 5 6 7 8 show ?thesis by (intro conjI)
qed

section \<open>Prose around the JSON object\<close>




section \<open>Uniqueness of the tags\<close>

text \<open>
  Claim C7 as stated fails: the uniqueness check of the strict schema compares the tags as
  they are written. A record whose tags hold both \<open>Gift\<close> and \<open>gift\<close>, equal after lower-casing,
  passes the whole schema.
\<close>

theorem case_variants_accepted:
  "toLowerCase (asc ''Gift'') = toLowerCase (asc ''gift'')
   \<and> trimAll (split comma case_tags) = map asc [''mug'', ''handmade'', ''mothers day'',
        ''custom'', ''special'', ''mom'', ''gift idea'', ''maternal'', ''Gift'', ''gift'']
   \<and> StrictContentSchema_parse case_object
       = Inr \<lparr>title_v = case_title, description_v = case_description,
              tags_v = trimAll (split comma case_tags)\<rparr>
   \<and> Strict_validateContent scenario_parse case_object
       = Inr \<lparr>title_v = case_title, description_v = case_description,
              tags_v = trimAll (split comma case_tags)\<rparr>"
proof -
  have l: "toLowerCase (asc ''Gift'') = toLowerCase (asc ''gift'')"
    by (simp add: toLowerCase_def lowerUnit_def asc_def)
  have k: "map_of [(asc ''title'', JString case_title),
      (asc ''description'', JString case_description),
      (asc ''tags'', JString case_tags)] (asc ''title'') = Some (JString case_title)"
    "map_of [(asc ''title'', JString case_title),
      (asc ''description'', JString case_description),
      (asc ''tags'', JString case_tags)] (asc ''description'') = Some (JString case_description)"
    "map_of [(asc ''title'', JString case_title),
      (asc ''description'', JString case_description),
      (asc ''tags'', JString case_tags)] (asc ''tags'') = Some (JString case_tags)"
    by (simp_all add: asc_def)
  have p: "StrictContentSchema_parse case_object
       = Inr \<lparr>title_v = case_title, description_v = case_description,
              tags_v = trimAll (split comma case_tags)\<rparr>"
    unfolding case_object_def
    by (rule StrictContentSchema_parse_Inr [OF k case_title_ok case_description_ok case_tags_ok])
  then have v: "Strict_validateContent scenario_parse case_object
       = Inr \<lparr>title_v = case_title, description_v = case_description,
              tags_v = trimAll (split comma case_tags)\<rparr>"
    by (simp add: Strict_validateContent_def case_object_def)
  from l case_tags_split p v show ?thesis by simp
qed

text \<open>
  Claim C7, amended. The strict schema reports \<open>Tags must be unique\<close> exactly when two of the
  tags, split at the commas and trimmed, are the same string; tags that differ only in the case
  of a letter are different. Every record whose tag string holds such a repeated tag is
  rejected, and the message is among the issues of the error.
\<close>

theorem duplicate_tags_rejected:
  "(asc ''Tags must be unique'' \<in> set (tagListIssues ts) \<longleftrightarrow> \<not> distinct ts)
   \<and> (map_of kvs (asc ''tags'') = Some (JString g) \<and> \<not> distinct (trimAll (split comma g)) \<longrightarrow>
       (\<exists>issues. StrictContentSchema_parse (JObject kvs) = Inl issues
          \<and> asc ''Tags must be unique'' \<in> set issues
          \<and> Strict_validateContent parse (JObject kvs)
              = Inl (asc ''Content validation failed: '' @ join (asc '', '') issues)))"
proof (intro conjI impI)
  show "asc ''Tags must be unique'' \<in> set (tagListIssues ts) \<longleftrightarrow> \<not> distinct ts"
    by (rule unique_reported_iff)
next
  assume h: "map_of kvs (asc ''tags'') = Some (JString g) \<and> \<not> distinct (trimAll (split comma g))"
  then have u: "asc ''Tags must be unique'' \<in> set (strictTagsIssues (map_of kvs (asc ''tags'')))"
    by (simp add: strictTagsIssues_def unique_reported_iff)
  then have "strictTagsIssues (map_of kvs (asc ''tags'')) \<noteq> []" by auto
  then have p: "StrictContentSchema_parse (JObject kvs)
    = Inl (strictTitleIssues (map_of kvs (asc ''title''))
        @ strictDescriptionIssues (map_of kvs (asc ''description''))
        @ strictTagsIssues (map_of kvs (asc ''tags'')))"
    by (rule StrictContentSchema_parse_Inl)
  then have "Strict_validateContent parse (JObject kvs)
    = Inl (asc ''Content validation failed: '' @ join (asc '', '')
        (strictTitleIssues (map_of kvs (asc ''title''))
        @ strictDescriptionIssues (map_of kvs (asc ''description''))
        @ strictTagsIssues (map_of kvs (asc ''tags''))))"
    by (simp add: Strict_validateContent_def)
  with p u show "\<exists>issues. StrictContentSchema_parse (JObject kvs) = Inl issues
          \<and> asc ''Tags must be unique'' \<in> set issues
          \<and> Strict_validateContent parse (JObject kvs)
              = Inl (asc ''Content validation failed: '' @ join (asc '', '') issues)"
    by auto
qed

theorem duplicate_tags_rejected_witness:
  "trimAll (split comma duplicate_tags) = map asc [''mug'', ''gift'', ''mug'']
   \<and> (\<exists>issues. StrictContentSchema_parse (JObject [(asc ''tags'', JString duplicate_tags)])
          = Inl issues
        \<and> asc ''Tags must be unique'' \<in> set issues)
   \<and> asc ''Tags must be unique'' \<notin> set (tagListIssues (trimAll (split comma case_tags)))"
proof -
  have s: "trimAll (split comma duplicate_tags) = map asc [''mug'', ''gift'', ''mug'']"
    by (simp add: duplicate_tags_def trimAll_def asc_def comma_def trim_def isWhiteSpace_def)
  have nd: "\<not> distinct (trimAll (split comma duplicate_tags))"
    by (simp add: s)
  have m: "map_of [(asc ''tags'', JString duplicate_tags)] (asc ''tags'')
      = Some (JString duplicate_tags)"
    by simp
  note T = duplicate_tags_rejected [where kvs = "[(asc ''tags'', JString duplicate_tags)]"
      and g = duplicate_tags and parse = scenario_parse
      and ts = "trimAll (split comma case_tags)"]
  from T m nd have 1: "\<exists>issues. StrictContentSchema_parse
      (JObject [(asc ''tags'', JString duplicate_tags)]) = Inl issues
        \<and> asc ''Tags must be unique'' \<in> set issues"
    by blast
  have "distinct (trimAll (split comma case_tags))"
    by (simp add: case_tags_split asc_def)
  with T have 2: "asc ''Tags must be unique'' \<notin> set (tagListIssues (trimAll (split comma case_tags)))"
    by blast
  from s 1 2 show ?thesis by blast
qed

section \<open>Missing keys\<close>

text \<open>
  Claim C2 as stated fails on \<open>Validator.validateAndTransform\<close>: an object text without the key
  \<open>tags\<close> parses, and the error thrown for it carries the code \<open>INVALID_JSON\<close>, which is not
  \<open>MISSING_INPUT\<close>; the missing key is named in the message only, the context of the error is
  empty.
\<close>

theorem missing_key_is_invalid_json:
  "example_parse no_tags_text = Inr no_tags_object
   \<and> validateAndTransform example_parse no_tags_text
       = Inl \<lparr>message = asc ''Content generation failed due to invalid JSON structure: Missing required fields: tags'',
              code = INVALID_JSON, validationErrors = [], missingFields = [],
              attemptedModel = []\<rparr>
   \<and> INVALID_JSON \<noteq> MISSING_INPUT"
proof -
  have "no_tags_text \<noteq> object_text"
    by (simp add: no_tags_text_def object_text_def asc_def)
  then have 1: "example_parse no_tags_text = Inr no_tags_object"
    by (simp add: example_parse_def)
  have "validateAndTransform example_parse no_tags_text
    = Inl \<lparr>message = asc ''Content generation failed due to invalid JSON structure: ''
             @ asc ''Missing required fields: '' @ join (asc '', '') [asc ''tags''],
           code = INVALID_JSON, validationErrors = [], missingFields = [],
           attemptedModel = []\<rparr>"
    using validateAndTransform_missing [where parse = example_parse and input = no_tags_text,
        OF no_tags_facts(1,2,3)]
    by (simp add: no_tags_facts(4))
  then have 2: "validateAndTransform example_parse no_tags_text
       = Inl \<lparr>message = asc ''Content generation failed due to invalid JSON structure: Missing required fields: tags'',
              code = INVALID_JSON, validationErrors = [], missingFields = [],
              attemptedModel = []\<rparr>"
    by (simp add: asc_def)
  from 1 2 show ?thesis by simp
qed

text \<open>
  Claim C2, amended. When the trimmed input starts with \<open>{\<close>, ends with \<open>}\<close>, parses to an
  object and lacks at least one of the keys \<open>title\<close>, \<open>description\<close>, \<open>tags\<close>,
  \<open>validateAndTransform\<close> fails with the code \<open>INVALID_JSON\<close>; the message is
  \<open>Content generation failed due to invalid JSON structure: Missing required fields: \<close> followed
  by the missing keys joined with a comma and a space; the context of the error is empty. The
  missing keys are exactly those of \<open>title\<close>, \<open>description\<close>, \<open>tags\<close>, in this order, that
  the object does not hold.
\<close>

theorem missing_keys_reported:
  "(startsWith (trim input) [lbrace] \<and> endsWith (trim input) [rbrace]
      \<and> parse (trim input) = Inr (JObject kvs) \<and> missingFieldsOf kvs \<noteq> [] \<longrightarrow>
      validateAndTransform parse input
        = Inl \<lparr>message = asc ''Content generation failed due to invalid JSON structure: ''
                 @ asc ''Missing required fields: '' @ join (asc '', '') (missingFieldsOf kvs),
               code = INVALID_JSON, validationErrors = [], missingFields = [],
               attemptedModel = []\<rparr>)
   \<and> missingFieldsOf kvs
       = filter (\<lambda>field. map_of kvs field = None)
           [asc ''title'', asc ''description'', asc ''tags'']"
proof (intro conjI impI)
  assume "startsWith (trim input) [lbrace] \<and> endsWith (trim input) [rbrace]
      \<and> parse (trim input) = Inr (JObject kvs) \<and> missingFieldsOf kvs \<noteq> []"
  then show "validateAndTransform parse input
        = Inl \<lparr>message = asc ''Content generation failed due to invalid JSON structure: ''
                 @ asc ''Missing required fields: '' @ join (asc '', '') (missingFieldsOf kvs),
               code = INVALID_JSON, validationErrors = [], missingFields = [],
               attemptedModel = []\<rparr>"
    by (intro validateAndTransform_missing) simp_all
next
  show "missingFieldsOf kvs
       = filter (\<lambda>field. map_of kvs field = None)
           [asc ''title'', asc ''description'', asc ''tags'']"
    by (simp add: missingFieldsOf_def requiredFields_def)
qed

theorem missing_keys_reported_witness:
  "validateAndTransform example_parse no_tags_text
     = Inl \<lparr>message = asc ''Content generation failed due to invalid JSON structure: ''
              @ asc ''Missing required fields: '' @ asc ''tags'',
            code = INVALID_JSON, validationErrors = [], missingFields = [],
            attemptedModel = []\<rparr>"
  using missing_keys_reported [where input = no_tags_text and parse = example_parse
      and kvs = "[(asc ''title'', JString (asc ''Mug'')),
                  (asc ''description'', JString (asc ''A mug.''))]"]
    no_tags_facts
  by simp

section \<open>Several violations at once\<close>

text \<open>
  Claim C3 as stated fails on \<open>Validator.validateOutput\<close> of \<open>services/validation/index.ts\<close>,
  which returns at the first check that fails: for the object of title \<open>x\<close>, description
  \<open>short\<close> and tags \<open>a\<close>, \<open>b\<close>, both the description and the tags break their rule, and the
  error names the description only.
\<close>

theorem validateOutput_stops_at_first:
  "\<not> descriptionOK (Some (JString (asc ''short'')))
   \<and> \<not> tagsOK (Some (JArray [JString (asc ''a''), JString (asc ''b'')]))
   \<and> validateOutput scenario_parse scenario_array_object
       = Inl (asc ''Description must be between 150 and 200 characters'')"
proof -
  have k: "map_of [(asc ''title'', JString (asc ''x'')),
      (asc ''description'', JString (asc ''short'')),
      (asc ''tags'', JArray [JString (asc ''a''), JString (asc ''b'')])] (asc ''title'')
        = Some (JString (asc ''x''))"
    "map_of [(asc ''title'', JString (asc ''x'')),
      (asc ''description'', JString (asc ''short'')),
      (asc ''tags'', JArray [JString (asc ''a''), JString (asc ''b'')])] (asc ''description'')
        = Some (JString (asc ''short''))"
    "map_of [(asc ''title'', JString (asc ''x'')),
      (asc ''description'', JString (asc ''short'')),
      (asc ''tags'', JArray [JString (asc ''a''), JString (asc ''b'')])] (asc ''tags'')
        = Some (JArray [JString (asc ''a''), JString (asc ''b'')])"
    by (simp_all add: asc_def)
  have m: "missingFieldsOf [(asc ''title'', JString (asc ''x'')),
      (asc ''description'', JString (asc ''short'')),
      (asc ''tags'', JArray [JString (asc ''a''), JString (asc ''b'')])] = []"
    by (simp add: missingFieldsOf_def requiredFields_def k)
  have t: "titleOK (Some (JString (asc ''x'')))"
    by (simp add: titleOK_def output_title_maxLength_def)
  have d: "\<not> descriptionOK (Some (JString (asc ''short'')))"
    by (simp add: descriptionOK_def output_description_minLength_def)
  have g: "\<not> tagsOK (Some (JArray [JString (asc ''a''), JString (asc ''b'')]))"
    by (simp add: tagsOK_def output_tags_min_def)
  have "validateOutput scenario_parse scenario_array_object
       = Inl (asc ''Description must be between 150 and 200 characters'')"
    unfolding scenario_array_object_def validateOutput_object [OF m] k
    using t d by simp
  with d g show ?thesis by simp
qed

text \<open>
  Claim C3, amended. For an object whose title and description are strings and whose tags are a
  string or an array of strings, the schema of \<open>services/validation.ts\<close> collects the message of
  every check that is violated: each violated check has its message among the issues,
  \<open>validateContent\<close> answers with \<open>Content validation failed: \<close> followed by all the issues joined
  with a comma and a space, the schema fails exactly when some check is violated, and
  \<open>validateAndTransform\<close> throws that same message with the code \<open>VALIDATION_ERROR\<close>. The
  hand-written \<open>validateOutput\<close> of \<open>services/validation/index.ts\<close> reports one check only, the
  first that fails in the order title, description, tags.
\<close>

theorem schema_violations_collected:
  assumes "map_of kvs (asc ''title'') = Some (JString t)"
    and "map_of kvs (asc ''description'') = Some (JString d)"
    and "coerceTags (map_of kvs (asc ''tags'')) = Some ts"
  shows
  "(ContentSchema_parse (JObject kvs) = Inl issues \<longrightarrow>
      (length t < title_minLength \<longrightarrow> asc ''Title is required'' \<in> set issues)
      \<and> (length t > title_maxLength \<longrightarrow>
           asc ''Title must be 50 characters or less'' \<in> set issues)
      \<and> (\<not> noJSONSyntax t \<longrightarrow> asc ''Title cannot contain JSON syntax'' \<in> set issues)
      \<and> (length d < description_minLength \<longrightarrow>
           asc ''Description must be at least 150 characters'' \<in> set issues)
      \<and> (length d > description_maxLength \<longrightarrow>
           asc ''Description must be 200 characters or less'' \<in> set issues)
      \<and> (\<not> noJSONSyntax d \<longrightarrow> asc ''Description cannot contain JSON syntax'' \<in> set issues)
      \<and> (length ts < tags_min \<or> length ts > tags_max \<longrightarrow>
           asc ''Must have between 4 and 12 tags'' \<in> set issues)
      \<and> (list_ex (\<lambda>tag. trim tag = []) ts \<longrightarrow> asc ''Tags cannot be empty'' \<in> set issues)
      \<and> Validator_validateContent parse (JObject kvs)
          = Inl (asc ''Content validation failed: '' @ join (asc '', '') issues))
   \<and> ((\<exists>issues. ContentSchema_parse (JObject kvs) = Inl issues) \<longleftrightarrow>
        length t < title_minLength \<or> length t > title_maxLength \<or> \<not> noJSONSyntax t
        \<or> length d < description_minLength \<or> length d > description_maxLength
        \<or> \<not> noJSONSyntax d \<or> length ts < tags_min \<or> length ts > tags_max
        \<or> list_ex (\<lambda>tag. trim tag = []) ts)
   \<and> (validateJSON parse input = Inr (JObject kvs)
        \<and> ContentSchema_parse (JObject kvs) = Inl issues \<longrightarrow>
      validateAndTransform parse input
        = Inl (newContentError
            (asc ''Content validation failed: '' @ join (asc '', '') issues) VALIDATION_ERROR))
   \<and> (missingFieldsOf kvs = [] \<and> \<not> titleOK (map_of kvs (asc ''title'')) \<longrightarrow>
      validateOutput parse (JObject kvs)
        = Inl (asc ''Title must be a non-empty string with maximum 50 characters''))
   \<and> (missingFieldsOf kvs = [] \<and> titleOK (map_of kvs (asc ''title''))
        \<and> \<not> descriptionOK (map_of kvs (asc ''description'')) \<longrightarrow>
      validateOutput parse (JObject kvs)
        = Inl (asc ''Description must be between 150 and 200 characters''))
   \<and> (missingFieldsOf kvs = [] \<and> titleOK (map_of kvs (asc ''title''))
        \<and> descriptionOK (map_of kvs (asc ''description''))
        \<and> \<not> tagsOK (map_of kvs (asc ''tags'')) \<longrightarrow>
      validateOutput parse (JObject kvs) = Inl (asc ''Tags must be an array of 10-12 strings''))"
proof -
  note I = ContentSchema_parse_issues [OF assms]
  let ?all = "titleIssues (Some (JString t)) @ descriptionIssues (Some (JString d))
      @ tagsIssues (map_of kvs (asc ''tags''))"
  note E = titleIssues_string descriptionIssues_string tagsIssues_coerced [OF assms(3)]
  have m1: "length t < title_minLength \<longrightarrow> asc ''Title is required'' \<in> set ?all"
    by (simp add: E when_failed_set)
  have m2: "length t > title_maxLength \<longrightarrow>
      asc ''Title must be 50 characters or less'' \<in> set ?all"
    by (simp add: E when_failed_set)
  have m3: "\<not> noJSONSyntax t \<longrightarrow> asc ''Title cannot contain JSON syntax'' \<in> set ?all"
    by (simp add: E when_failed_set)
  have m4: "length d < description_minLength \<longrightarrow>
      asc ''Description must be at least 150 characters'' \<in> set ?all"
    by (simp add: E when_failed_set)
  have m5: "length d > description_maxLength \<longrightarrow>
      asc ''Description must be 200 characters or less'' \<in> set ?all"
    by (simp add: E when_failed_set)
  have m6: "\<not> noJSONSyntax d \<longrightarrow> asc ''Description cannot contain JSON syntax'' \<in> set ?all"
    by (simp add: E when_failed_set)
  have m7: "length ts < tags_min \<or> length ts > tags_max \<longrightarrow>
      asc ''Must have between 4 and 12 tags'' \<in> set ?all"
    by (simp add: E when_failed_set not_le)
  have m8: "list_ex (\<lambda>tag. trim tag = []) ts \<longrightarrow> asc ''Tags cannot be empty'' \<in> set ?all"
    by (simp add: E when_failed_set)
  note mem = m1 m2 m3 m4 m5 m6 m7 m8
  have "?all = [] \<longleftrightarrow>
        title_minLength \<le> length t \<and> length t \<le> title_maxLength \<and> noJSONSyntax t
        \<and> description_minLength \<le> length d \<and> length d \<le> description_maxLength
        \<and> noJSONSyntax d \<and> tags_min \<le> length ts \<and> length ts \<le> tags_max
        \<and> \<not> list_ex (\<lambda>tag. trim tag = []) ts"
    by (simp add: E when_failed_Nil)
  then have ne: "?all \<noteq> [] \<longleftrightarrow>
        length t < title_minLength \<or> length t > title_maxLength \<or> \<not> noJSONSyntax t
        \<or> length d < description_minLength \<or> length d > description_maxLength
        \<or> \<not> noJSONSyntax d \<or> length ts < tags_min \<or> length ts > tags_max
        \<or> list_ex (\<lambda>tag. trim tag = []) ts"
    by (simp only: not_less [symmetric]) blast
  have 1: "ContentSchema_parse (JObject kvs) = Inl issues \<longrightarrow>
      (length t < title_minLength \<longrightarrow> asc ''Title is required'' \<in> set issues)
      \<and> (length t > title_maxLength \<longrightarrow>
           asc ''Title must be 50 characters or less'' \<in> set issues)
      \<and> (\<not> noJSONSyntax t \<longrightarrow> asc ''Title cannot contain JSON syntax'' \<in> set issues)
      \<and> (length d < description_minLength \<longrightarrow>
           asc ''Description must be at least 150 characters'' \<in> set issues)
      \<and> (length d > description_maxLength \<longrightarrow>
           asc ''Description must be 200 characters or less'' \<in> set issues)
      \<and> (\<not> noJSONSyntax d \<longrightarrow> asc ''Description cannot contain JSON syntax'' \<in> set issues)
      \<and> (length ts < tags_min \<or> length ts > tags_max \<longrightarrow>
           asc ''Must have between 4 and 12 tags'' \<in> set issues)
      \<and> (list_ex (\<lambda>tag. trim tag = []) ts \<longrightarrow> asc ''Tags cannot be empty'' \<in> set issues)
      \<and> Validator_validateContent parse (JObject kvs)
          = Inl (asc ''Content validation failed: '' @ join (asc '', '') issues)"
  proof
    assume a: "ContentSchema_parse (JObject kvs) = Inl issues"
    then have e: "issues = ?all" using I by blast
    from a have v: "Validator_validateContent parse (JObject kvs)
        = Inl (asc ''Content validation failed: '' @ join (asc '', '') issues)"
      by (simp add: Validator_validateContent_def)
    show "(length t < title_minLength \<longrightarrow> asc ''Title is required'' \<in> set issues)
      \<and> (length t > title_maxLength \<longrightarrow>
           asc ''Title must be 50 characters or less'' \<in> set issues)
      \<and> (\<not> noJSONSyntax t \<longrightarrow> asc ''Title cannot contain JSON syntax'' \<in> set issues)
      \<and> (length d < description_minLength \<longrightarrow>
           asc ''Description must be at least 150 characters'' \<in> set issues)
      \<and> (length d > description_maxLength \<longrightarrow>
           asc ''Description must be 200 characters or less'' \<in> set issues)
      \<and> (\<not> noJSONSyntax d \<longrightarrow> asc ''Description cannot contain JSON syntax'' \<in> set issues)
      \<and> (length ts < tags_min \<or> length ts > tags_max \<longrightarrow>
           asc ''Must have between 4 and 12 tags'' \<in> set issues)
      \<and> (list_ex (\<lambda>tag. trim tag = []) ts \<longrightarrow> asc ''Tags cannot be empty'' \<in> set issues)
      \<and> Validator_validateContent parse (JObject kvs)
          = Inl (asc ''Content validation failed: '' @ join (asc '', '') issues)"
      using v unfolding e
      by (intro conjI) (rule m1 m2 m3 m4 m5 m6 m7 m8, assumption?)+
  qed
  have "(\<exists>issues. ContentSchema_parse (JObject kvs) = Inl issues) \<longleftrightarrow> ?all \<noteq> []"
  proof
    assume "\<exists>issues. ContentSchema_parse (JObject kvs) = Inl issues"
    then obtain i where "ContentSchema_parse (JObject kvs) = Inl i" ..
    then have "i \<noteq> [] \<and> i = ?all" by (rule iffD1 [OF I])
    then show "?all \<noteq> []" by metis
  next
    assume "?all \<noteq> []"
    then have "?all \<noteq> [] \<and> ?all = ?all" by simp
    then have "ContentSchema_parse (JObject kvs) = Inl ?all" by (rule iffD2 [OF I])
    then show "\<exists>issues. ContentSchema_parse (JObject kvs) = Inl issues" ..
  qed
  then have 2: "(\<exists>issues. ContentSchema_parse (JObject kvs) = Inl issues) \<longleftrightarrow>
        length t < title_minLength \<or> length t > title_maxLength \<or> \<not> noJSONSyntax t
        \<or> length d < description_minLength \<or> length d > description_maxLength
        \<or> \<not> noJSONSyntax d \<or> length ts < tags_min \<or> length ts > tags_max
        \<or> list_ex (\<lambda>tag. trim tag = []) ts"
    by (simp only: ne)
  have 3: "validateJSON parse input = Inr (JObject kvs)
        \<and> ContentSchema_parse (JObject kvs) = Inl issues \<longrightarrow>
      validateAndTransform parse input
        = Inl (newContentError
            (asc ''Content validation failed: '' @ join (asc '', '') issues) VALIDATION_ERROR)"
    by (simp add: validateAndTransform_def Validator_validateContent_def)
  have 4: "missingFieldsOf kvs = [] \<and> \<not> titleOK (map_of kvs (asc ''title'')) \<longrightarrow>
      validateOutput parse (JObject kvs)
        = Inl (asc ''Title must be a non-empty string with maximum 50 characters'')"
    by (simp add: validateOutput_object)
  have 5: "missingFieldsOf kvs = [] \<and> titleOK (map_of kvs (asc ''title''))
        \<and> \<not> descriptionOK (map_of kvs (asc ''description'')) \<longrightarrow>
      validateOutput parse (JObject kvs)
        = Inl (asc ''Description must be between 150 and 200 characters'')"
    by (simp add: validateOutput_object)
  have 6: "missingFieldsOf kvs = [] \<and> titleOK (map_of kvs (asc ''title''))
        \<and> descriptionOK (map_of kvs (asc ''description''))
        \<and> \<not> tagsOK (map_of kvs (asc ''tags'')) \<longrightarrow>
      validateOutput parse (JObject kvs) = Inl (asc ''Tags must be an array of 10-12 strings'')"
    by (simp add: validateOutput_object)
  show ?thesis
    by (rule conjI [OF 1 conjI [OF 2 conjI [OF 3 conjI [OF 4 conjI [OF 5 6]]]]])
qed

theorem schema_violations_collected_witness:
  "ContentSchema_parse scenario_object
     = Inl [asc ''Description must be at least 150 characters'',
            asc ''Must have between 4 and 12 tags'']
   \<and> validateAndTransform scenario_parse scenario_text
       = Inl (newContentError (asc ''Content validation failed: Description must be at least 150 characters, Must have between 4 and 12 tags'') VALIDATION_ERROR)
   \<and> validateOutput scenario_parse scenario_array_object
       = Inl (asc ''Description must be between 150 and 200 characters'')"
proof -
  let ?kvs = "[(asc ''title'', JString (asc ''x'')),
      (asc ''description'', JString (asc ''short'')),
      (asc ''tags'', JString (asc ''a,b''))]"
  let ?kvs' = "[(asc ''title'', JString (asc ''x'')),
      (asc ''description'', JString (asc ''short'')),
      (asc ''tags'', JArray [JString (asc ''a''), JString (asc ''b'')])]"
  let ?issues = "[asc ''Description must be at least 150 characters'',
            asc ''Must have between 4 and 12 tags'']"
  have k: "map_of ?kvs (asc ''title'') = Some (JString (asc ''x''))"
    "map_of ?kvs (asc ''description'') = Some (JString (asc ''short''))"
    "map_of ?kvs (asc ''tags'') = Some (JString (asc ''a,b''))"
    by (simp_all add: asc_def)
  have c: "coerceTags (map_of ?kvs (asc ''tags'')) = Some [asc ''a'', asc ''b'']"
    unfolding k by (simp add: coerceTags_def trimAll_def asc_def comma_def trim_def isWhiteSpace_def)
  have k': "map_of ?kvs' (asc ''title'') = Some (JString (asc ''x''))"
    "map_of ?kvs' (asc ''description'') = Some (JString (asc ''short''))"
    "map_of ?kvs' (asc ''tags'') = Some (JArray [JString (asc ''a''), JString (asc ''b'')])"
    by (simp_all add: asc_def)
  have c': "coerceTags (map_of ?kvs' (asc ''tags'')) = Some [asc ''a'', asc ''b'']"
    unfolding k' by (simp add: coerceTags_def)
  note T = schema_violations_collected [where kvs = ?kvs and parse = scenario_parse
      and input = scenario_text and issues = ?issues, OF k(1) k(2) c]
  note U = schema_violations_collected [where kvs = ?kvs' and parse = scenario_parse
      and input = scenario_text and issues = ?issues, OF k'(1) k'(2) c']
  have n: "noJSONSyntax (asc ''x'')" "noJSONSyntax (asc ''short'')"
    by (simp_all add: noJSONSyntax_def startsWith_simps asc_def lbrace_def rbrace_def)
  have ti: "titleIssues (Some (JString (asc ''x''))) = []"
    using n(1) by (simp add: titleIssues_string when_failed_def title_minLength_def
        title_maxLength_def)
  have di: "descriptionIssues (Some (JString (asc ''short'')))
      = [asc ''Description must be at least 150 characters'']"
    using n(2) by (simp add: descriptionIssues_string when_failed_def
        description_minLength_def description_maxLength_def)
  have tr: "trim (asc ''a'') \<noteq> []" "trim (asc ''b'') \<noteq> []"
    by (simp_all add: asc_def trim_def isWhiteSpace_def)
  have gi: "tagsIssues (map_of ?kvs (asc ''tags'')) = [asc ''Must have between 4 and 12 tags'']"
    unfolding tagsIssues_coerced [OF c]
    by (simp add: when_failed_def tags_min_def tr)
  have 1: "ContentSchema_parse (JObject ?kvs) = Inl ?issues"
    by (rule iffD2 [OF ContentSchema_parse_issues [OF k(1) k(2) c]])
       (simp only: ti di gi append.simps, simp)
  have t: "trim scenario_text = scenario_text"
    unfolding scenario_text_braced by (rule trim_braced)
  have m: "missingFieldsOf ?kvs = []"
    by (simp add: missingFieldsOf_def requiredFields_def k)
  have b: "startsWith (trim scenario_text) [lbrace]" "endsWith (trim scenario_text) [rbrace]"
    unfolding t by (simp_all only: scenario_text_braced braced_ends)
  have p: "scenario_parse (trim scenario_text) = Inr (JObject ?kvs)"
    unfolding t by (simp add: scenario_parse_def scenario_object_def)
  have j: "validateJSON scenario_parse scenario_text = Inr (JObject ?kvs)"
    by (rule validateJSON_accepts [where parse = scenario_parse and input = scenario_text,
          OF b p m])
  note 2 = T [THEN conjunct2, THEN conjunct2, THEN conjunct1, THEN mp, OF conjI [OF j 1]]
  have m': "missingFieldsOf ?kvs' = []"
    by (simp add: missingFieldsOf_def requiredFields_def k')
  have o: "titleOK (map_of ?kvs' (asc ''title''))"
    "\<not> descriptionOK (map_of ?kvs' (asc ''description''))"
    unfolding k'
    by (simp_all add: titleOK_def descriptionOK_def output_title_maxLength_def
        output_description_minLength_def)
  note 3 = U [THEN conjunct2, THEN conjunct2, THEN conjunct2, THEN conjunct2, THEN conjunct1,
      THEN mp, OF conjI [OF m' conjI [OF o(1) o(2)]]]
  have jn: "asc ''Content validation failed: '' @ join (asc '', '') ?issues
      = asc ''Content validation failed: Description must be at least 150 characters, Must have between 4 and 12 tags''"
    by (simp add: asc_def)
  show ?thesis
    unfolding scenario_object_def scenario_array_object_def
    by (rule conjI [OF 1 conjI [OF 2 [unfolded jn] 3]])
qed

end
